theory Spec2Isabelle
  imports Complex_Main
begin

section \<open>Data model of the rail subsystem\<close>

text \<open>
  The rail functions only compare a tile's building type against the four literals
  \<^verbatim>\<open>'rail'\<close>, \<^verbatim>\<open>'rail_station'\<close>, \<^verbatim>\<open>'road'\<close> and \<^verbatim>\<open>'empty'\<close>; every other building type
  of the game is the constructor \<open>Other_building\<close>.  The overlay flag is read through
  \<^verbatim>\<open>tile.hasRailOverlay === true\<close>, so an absent flag is \<open>False\<close>.
\<close>

datatype BuildingType = Rail | Rail_station | Road | Empty | Other_building

record Tile =
  building_type :: BuildingType
  hasRailOverlay :: bool

text \<open>
  The grid is \<^verbatim>\<open>Tile[][]\<close>, read as \<^verbatim>\<open>grid[y][x]\<close>.  Tile coordinates and the grid size are
  JavaScript numbers holding integers; they are \<open>int\<close> here, because the source computes
  \<open>x - 1\<close> at \<open>x = 0\<close> and tests \<open>x < 0\<close>.  Every read of the source comes after the test
  \<^verbatim>\<open>x < 0 || y < 0 || x >= gridSize || y >= gridSize\<close> (or a loop bound that implies it), so on a
  grid of \<open>gridSize\<close> rows of \<open>gridSize\<close> tiles (\<open>wf_grid\<close>) no read leaves the array.
\<close>

type_synonym Grid = "Tile list list"

text \<open>
  JavaScript numbers that hold times, speeds and progress along a tile are \<open>real\<close> here:
  the model follows the arithmetic and the comparisons of the source and leaves rounding,
  \<^verbatim>\<open>NaN\<close> and the infinities out.
\<close>

definition tileAt :: "Grid \<Rightarrow> int \<Rightarrow> int \<Rightarrow> Tile" where
  "tileAt grid x y = grid ! nat y ! nat x"

definition wf_grid :: "Grid \<Rightarrow> int \<Rightarrow> bool" where
  "wf_grid grid gridSize =
     (0 \<le> gridSize \<and> int (length grid) = gridSize \<and>
      list_all (\<lambda>row. int (length row) = gridSize) grid)"

record RailConnection =
  north :: bool
  east :: bool
  south :: bool
  west :: bool

datatype TrackType =
    straight_ns | straight_ew
  | curve_ne | curve_nw | curve_se | curve_sw
  | junction_t_n | junction_t_e | junction_t_s | junction_t_w
  | junction_cross
  | terminus_n | terminus_e | terminus_s | terminus_w
  | single

text \<open>\<^verbatim>\<open>CarDirection\<close>; capitalised, since \<open>north\<close> ... \<open>west\<close> are the fields above.\<close>

datatype CarDirection = North | East | South | West

text \<open>
  \<^verbatim>\<open>CarriageType\<close> and \<^verbatim>\<open>TrainType\<close> both have a literal \<^verbatim>\<open>'passenger'\<close>; the train types are
  \<open>passenger_train\<close> and \<open>freight_train\<close>.  \<^verbatim>\<open>Train\<close> and \<^verbatim>\<open>TrainCarriage\<close> share field names,
  so the carriage's fields carry the prefix \<open>car_\<close>; \<^verbatim>\<open>id\<close> and \<^verbatim>\<open>type\<close> are \<open>train_id\<close> and
  \<open>train_type\<close>.  The path history holds cells \<open>(x, y)\<close>.
\<close>

datatype CarriageType =
  locomotive | passenger | freight_box | freight_tank | freight_flat | caboose

datatype TrainType = passenger_train | freight_train

record TrainCarriage =
  car_type :: CarriageType
  car_color :: string
  car_progress :: real
  car_tileX :: int
  car_tileY :: int
  car_direction :: CarDirection

record Train =
  train_id :: int
  train_type :: TrainType
  carriages :: "TrainCarriage list"
  tileX :: int
  tileY :: int
  direction :: CarDirection
  progress :: real
  speed :: real
  path :: "(int \<times> int) list"
  pathIndex :: int
  age :: real
  maxAge :: real
  color :: string
  atStation :: bool
  stationWaitTimer :: real


section \<open>Grid adjacency oracle (railSystem.ts)\<close>

definition isRailTile :: "Grid \<Rightarrow> int \<Rightarrow> int \<Rightarrow> int \<Rightarrow> bool" where
  "isRailTile grid gridSize x y =
     (if x < 0 \<or> y < 0 \<or> x \<ge> gridSize \<or> y \<ge> gridSize then False
      else let tile = tileAt grid x y
           in building_type tile = Rail \<or>
              (building_type tile = Road \<and> hasRailOverlay tile = True))"

definition isRailStationTile :: "Grid \<Rightarrow> int \<Rightarrow> int \<Rightarrow> int \<Rightarrow> bool" where
  "isRailStationTile grid gridSize x y =
     (if x < 0 \<or> y < 0 \<or> x \<ge> gridSize \<or> y \<ge> gridSize then False
      else let tile = tileAt grid x y
           in if building_type tile = Rail_station then True
              else if building_type tile = Empty then
                     (if x > 0 \<and> building_type (tileAt grid (x - 1) y) = Rail_station then True
                      else if y > 0 \<and> building_type (tileAt grid x (y - 1)) = Rail_station then True
                      else if x > 0 \<and> y > 0 \<and>
                              building_type (tileAt grid (x - 1) (y - 1)) = Rail_station then True
                      else False)
                   else False)"

definition hasRailAtPosition :: "Grid \<Rightarrow> int \<Rightarrow> int \<Rightarrow> int \<Rightarrow> bool" where
  "hasRailAtPosition grid gridSize x y =
     (if x < 0 \<or> y < 0 \<or> x \<ge> gridSize \<or> y \<ge> gridSize then False
      else let tile = tileAt grid x y
           in building_type tile = Rail \<or>
              isRailStationTile grid gridSize x y \<or>
              (building_type tile = Road \<and> hasRailOverlay tile = True))"

definition getAdjacentRail :: "Grid \<Rightarrow> int \<Rightarrow> int \<Rightarrow> int \<Rightarrow> RailConnection" where
  "getAdjacentRail grid gridSize x y =
     \<lparr> north = hasRailAtPosition grid gridSize (x - 1) y,
       east = hasRailAtPosition grid gridSize x (y - 1),
       south = hasRailAtPosition grid gridSize (x + 1) y,
       west = hasRailAtPosition grid gridSize x (y + 1) \<rparr>"

text \<open>The local closure \<^verbatim>\<open>hasRailAt\<close> of \<^verbatim>\<open>getAdjacentRailForOverlay\<close>.\<close>

definition hasRailAt :: "Grid \<Rightarrow> int \<Rightarrow> int \<Rightarrow> int \<Rightarrow> bool" where
  "hasRailAt grid gridSize checkX checkY =
     (if checkX < 0 \<or> checkY < 0 \<or> checkX \<ge> gridSize \<or> checkY \<ge> gridSize then False
      else let tile = tileAt grid checkX checkY
           in building_type tile = Rail \<or>
              isRailStationTile grid gridSize checkX checkY \<or>
              (building_type tile = Road \<and> hasRailOverlay tile = True))"

definition getAdjacentRailForOverlay :: "Grid \<Rightarrow> int \<Rightarrow> int \<Rightarrow> int \<Rightarrow> RailConnection" where
  "getAdjacentRailForOverlay grid gridSize x y =
     \<lparr> north = hasRailAt grid gridSize (x - 1) y,
       east = hasRailAt grid gridSize x (y - 1),
       south = hasRailAt grid gridSize (x + 1) y,
       west = hasRailAt grid gridSize x (y + 1) \<rparr>"

section \<open>Track classifier\<close>

definition getTrackType :: "RailConnection \<Rightarrow> TrackType" where
  "getTrackType connections =
     (let n = north connections; e = east connections;
          s = south connections; w = west connections;
          count = length (filter (\<lambda>b. b) [n, e, s, w])
      in if count = 4 then junction_cross
         else if count = 3 \<and> \<not> n then junction_t_n
         else if count = 3 \<and> \<not> e then junction_t_e
         else if count = 3 \<and> \<not> s then junction_t_s
         else if count = 3 \<and> \<not> w then junction_t_w
         else if n \<and> s \<and> \<not> e \<and> \<not> w then straight_ns
         else if e \<and> w \<and> \<not> n \<and> \<not> s then straight_ew
         else if n \<and> e \<and> \<not> s \<and> \<not> w then curve_ne
         else if n \<and> w \<and> \<not> s \<and> \<not> e then curve_nw
         else if s \<and> e \<and> \<not> n \<and> \<not> w then curve_se
         else if s \<and> w \<and> \<not> n \<and> \<not> e then curve_sw
         else if count = 1 \<and> n then terminus_s
         else if count = 1 \<and> e then terminus_w
         else if count = 1 \<and> s then terminus_n
         else if count = 1 \<and> w then terminus_e
         else single)"

section \<open>Rail pathfinder\<close>

text \<open>
  \<open>findPathOnRails\<close> keeps a queue of entries \<^verbatim>\<open>{x, y, path}\<close> (\<^verbatim>\<open>queue.shift()\<close> takes the head,
  \<^verbatim>\<open>queue.push\<close> appends) and a \<^verbatim>\<open>Set\<close> of keys \<^verbatim>\<open>"x,y"\<close>, here the set of the cells themselves.
  \<open>visitNeighbor\<close> is the body of the \<^verbatim>\<open>for\<close> loop over \<open>directions\<close> for one direction,
  \<open>bfsLoop\<close> the \<^verbatim>\<open>while (queue.length > 0)\<close> loop; \<open>None\<close> is \<^verbatim>\<open>null\<close>.  The search ends because
  each pass either marks a new cell of the grid (\<open>cells\<close>) or shortens the queue.
\<close>

record QueueEntry =
  qx :: int
  qy :: int
  qpath :: "(int \<times> int) list"

definition directions :: "(int \<times> int) list" where
  "directions = [(-1, 0), (0, -1), (1, 0), (0, 1)]"

definition visitNeighbor ::
  "Grid \<Rightarrow> int \<Rightarrow> QueueEntry \<Rightarrow> QueueEntry list \<times> (int \<times> int) set \<Rightarrow> int \<times> int
     \<Rightarrow> QueueEntry list \<times> (int \<times> int) set" where
  "visitNeighbor grid gridSize current state d =
     (let queue = fst state; visited = snd state;
          nx = qx current + fst d; ny = qy current + snd d
      in if nx < 0 \<or> ny < 0 \<or> nx \<ge> gridSize \<or> ny \<ge> gridSize then (queue, visited)
         else if (nx, ny) \<in> visited then (queue, visited)
         else if \<not> isRailTile grid gridSize nx ny \<and> \<not> isRailStationTile grid gridSize nx ny
              then (queue, visited)
         else (queue @ [\<lparr>qx = nx, qy = ny, qpath = qpath current @ [(nx, ny)]\<rparr>],
               insert (nx, ny) visited))"

definition visitNeighbors ::
  "Grid \<Rightarrow> int \<Rightarrow> QueueEntry \<Rightarrow> QueueEntry list \<times> (int \<times> int) set
     \<Rightarrow> QueueEntry list \<times> (int \<times> int) set" where
  "visitNeighbors grid gridSize current state =
     foldl (visitNeighbor grid gridSize current) state directions"

definition cells :: "int \<Rightarrow> (int \<times> int) set" where
  "cells gridSize = {0..<gridSize} \<times> {0..<gridSize}"

function bfsLoop ::
  "Grid \<Rightarrow> int \<Rightarrow> int \<Rightarrow> int \<Rightarrow> QueueEntry list \<Rightarrow> (int \<times> int) set
     \<Rightarrow> (int \<times> int) list option" where
  "bfsLoop grid gridSize endX endY [] visited = None"
| "bfsLoop grid gridSize endX endY (current # queue) visited =
     (if qx current = endX \<and> qy current = endY then Some (qpath current)
      else bfsLoop grid gridSize endX endY
             (fst (visitNeighbors grid gridSize current (queue, visited)))
             (snd (visitNeighbors grid gridSize current (queue, visited))))"
  by pat_completeness auto

definition findPathOnRails ::
  "Grid \<Rightarrow> int \<Rightarrow> int \<Rightarrow> int \<Rightarrow> int \<Rightarrow> int \<Rightarrow> (int \<times> int) list option" where
  "findPathOnRails grid gridSize startX startY endX endY =
     bfsLoop grid gridSize endX endY
       [\<lparr>qx = startX, qy = startY, qpath = [(startX, startY)]\<rparr>]
       {(startX, startY)}"

text \<open>
  What the pathfinder is to return: a non-empty sequence of cells in which every step goes
  to one of the four neighbours (\<open>adjacent\<close>) and every cell after the first is a rail tile
  or a station tile (\<open>railOrStation\<close>, which is false outside the grid).
\<close>

definition cellOf :: "QueueEntry \<Rightarrow> int \<times> int" where
  "cellOf e = (qx e, qy e)"

definition railOrStation :: "Grid \<Rightarrow> int \<Rightarrow> int \<times> int \<Rightarrow> bool" where
  "railOrStation grid gridSize c =
     (isRailTile grid gridSize (fst c) (snd c) \<or> isRailStationTile grid gridSize (fst c) (snd c))"

definition adjacent :: "int \<times> int \<Rightarrow> int \<times> int \<Rightarrow> bool" where
  "adjacent a b = ((fst b - fst a, snd b - snd a) \<in> set directions)"

fun railPath :: "Grid \<Rightarrow> int \<Rightarrow> (int \<times> int) list \<Rightarrow> bool" where
  "railPath grid gridSize [] = False"
| "railPath grid gridSize [c] = True"
| "railPath grid gridSize (a # b # rest) =
     (adjacent a b \<and> railOrStation grid gridSize b \<and> railPath grid gridSize (b # rest))"

definition pathFromTo :: "Grid \<Rightarrow> int \<Rightarrow> int \<times> int \<Rightarrow> int \<times> int \<Rightarrow> (int \<times> int) list \<Rightarrow> bool" where
  "pathFromTo grid gridSize s t p = (railPath grid gridSize p \<and> hd p = s \<and> last p = t)"


text \<open>
  The loop invariant of the search, for start \<open>s\<close> and goal \<open>t\<close>: every queue entry holds a
  shortest path from \<open>s\<close> to its own, visited, cell; visited cells that left the queue are not
  the goal and have all their rail neighbours visited; path lengths in the queue are sorted
  and differ by at most one; every unvisited cell is farther than the head of the queue.
\<close>

definition bfsInv ::
  "Grid \<Rightarrow> int \<Rightarrow> int \<times> int \<Rightarrow> int \<times> int \<Rightarrow> QueueEntry list \<Rightarrow> (int \<times> int) set \<Rightarrow> bool" where
  "bfsInv grid gridSize s t Q V =
     ((\<forall>e\<in>set Q. pathFromTo grid gridSize s (cellOf e) (qpath e) \<and> cellOf e \<in> V \<and>
                  (\<forall>p. pathFromTo grid gridSize s (cellOf e) p \<longrightarrow> length (qpath e) \<le> length p)) \<and>
      s \<in> V \<and>
      (\<forall>u\<in>V. u \<notin> cellOf ` set Q \<longrightarrow>
                u \<noteq> t \<and> (\<forall>w. adjacent u w \<and> railOrStation grid gridSize w \<longrightarrow> w \<in> V)) \<and>
      sorted (map (\<lambda>e. length (qpath e)) Q) \<and>
      (\<forall>e\<in>set Q. length (qpath e) \<le> length (qpath (hd Q)) + 1) \<and>
      (\<forall>w p. Q \<noteq> [] \<and> w \<notin> V \<and> pathFromTo grid gridSize s w p \<longrightarrow>
               length (qpath (hd Q)) < length p))"


text \<open>
  Which of several shortest paths is returned.  A path is told by its steps; \<open>dirRank\<close> numbers
  a step by the place of its direction in the order of the source (north \<open>x-1\<close> is 0, east
  \<open>y-1\<close> is 1, south \<open>x+1\<close> is 2, west \<open>y+1\<close> is 3), \<open>route\<close> lists the numbers of the steps of
  a path, and \<open>lexLt\<close> compares two such lists at the first place where they differ.
\<close>

definition dirRank :: "int \<times> int \<Rightarrow> nat" where
  "dirRank d = (if d = (-1, 0) then 0 else if d = (0, -1) then 1 else if d = (1, 0) then 2 else 3)"

fun route :: "(int \<times> int) list \<Rightarrow> nat list" where
  "route (a # b # rest) = dirRank (fst b - fst a, snd b - snd a) # route (b # rest)"
| "route [a] = []"
| "route [] = []"

fun lexLt :: "nat list \<Rightarrow> nat list \<Rightarrow> bool" where
  "lexLt (x # xs) (y # ys) = (x < y \<or> (x = y \<and> lexLt xs ys))"
| "lexLt [] ys = False"
| "lexLt (x # xs) [] = False"


text \<open>
  The second loop invariant: entries of equal length stand in the queue in the order of
  their routes; every entry holds the least route among the paths of its length to its
  cell; and an entry one step longer than the head was reached from a cell whose route
  comes before the head's.
\<close>

definition bfsOrd :: "Grid \<Rightarrow> int \<Rightarrow> int \<times> int \<Rightarrow> QueueEntry list \<Rightarrow> bool" where
  "bfsOrd grid gridSize s Q =
     (sorted_wrt (\<lambda>a b. length (qpath a) = length (qpath b) \<longrightarrow>
                         lexLt (route (qpath a)) (route (qpath b))) Q \<and>
      (\<forall>e\<in>set Q. \<forall>p. pathFromTo grid gridSize s (cellOf e) p \<and> length p = length (qpath e) \<longrightarrow>
                        p = qpath e \<or> lexLt (route (qpath e)) (route p)) \<and>
      (\<forall>e\<in>set Q. length (qpath e) = length (qpath (hd Q)) + 1 \<longrightarrow>
                  lexLt (route (butlast (qpath e))) (route (qpath (hd Q)))))"


section \<open>Train movement engine\<close>

text \<open>
  The source mutates the train it is given; here each function returns the train after the
  call, and \<open>updateTrain\<close> returns it beside its boolean result.  \<open>DIRECTION_META_step\<close> is
  the \<^verbatim>\<open>step\<close> field of \<^verbatim>\<open>DIRECTION_META\<close> (constants.ts).
\<close>

fun DIRECTION_META_step :: "CarDirection \<Rightarrow> int \<times> int" where
  "DIRECTION_META_step North = (-1, 0)"
| "DIRECTION_META_step East = (0, -1)"
| "DIRECTION_META_step South = (1, 0)"
| "DIRECTION_META_step West = (0, 1)"

fun OPPOSITE_DIRECTION :: "CarDirection \<Rightarrow> CarDirection" where
  "OPPOSITE_DIRECTION North = South"
| "OPPOSITE_DIRECTION East = West"
| "OPPOSITE_DIRECTION South = North"
| "OPPOSITE_DIRECTION West = East"

definition STATION_STOP_DURATION :: real where
  "STATION_STOP_DURATION = 2.0"

definition CARRIAGE_SPACING :: real where
  "CARRIAGE_SPACING = 0.28"

definition getRailDirectionOptions :: "Grid \<Rightarrow> int \<Rightarrow> int \<Rightarrow> int \<Rightarrow> CarDirection list" where
  "getRailDirectionOptions grid gridSize x y =
     (if hasRailAtPosition grid gridSize (x - 1) y then [North] else []) @
     (if hasRailAtPosition grid gridSize x (y - 1) then [East] else []) @
     (if hasRailAtPosition grid gridSize (x + 1) y then [South] else []) @
     (if hasRailAtPosition grid gridSize x (y + 1) then [West] else [])"

definition pickNextDirection ::
  "CarDirection \<Rightarrow> Grid \<Rightarrow> int \<Rightarrow> int \<Rightarrow> int \<Rightarrow> CarDirection option" where
  "pickNextDirection previousDirection grid gridSize x y =
     (let options = getRailDirectionOptions grid gridSize x y
      in if length options = 0 then None
         else
           let connections = getAdjacentRail grid gridSize x y;
               trackType = getTrackType connections;
               incoming = OPPOSITE_DIRECTION previousDirection;
               filtered = filter (\<lambda>dir. dir \<noteq> incoming) options
           in if length filtered = 0 then Some incoming
              else
                (case trackType of
                   straight_ns \<Rightarrow>
                     if previousDirection \<in> set filtered then Some previousDirection
                     else Some (hd filtered)
                 | straight_ew \<Rightarrow>
                     if previousDirection \<in> set filtered then Some previousDirection
                     else Some (hd filtered)
                 | curve_ne \<Rightarrow> Some (hd filtered)
                 | curve_nw \<Rightarrow> Some (hd filtered)
                 | curve_se \<Rightarrow> Some (hd filtered)
                 | curve_sw \<Rightarrow> Some (hd filtered)
                 | junction_t_n \<Rightarrow>
                     if previousDirection \<in> set filtered then Some previousDirection
                     else Some (hd filtered)
                 | junction_t_e \<Rightarrow>
                     if previousDirection \<in> set filtered then Some previousDirection
                     else Some (hd filtered)
                 | junction_t_s \<Rightarrow>
                     if previousDirection \<in> set filtered then Some previousDirection
                     else Some (hd filtered)
                 | junction_t_w \<Rightarrow>
                     if previousDirection \<in> set filtered then Some previousDirection
                     else Some (hd filtered)
                 | junction_cross \<Rightarrow>
                     if previousDirection \<in> set filtered then Some previousDirection
                     else Some (hd filtered)
                 | terminus_n \<Rightarrow> Some incoming
                 | terminus_e \<Rightarrow> Some incoming
                 | terminus_s \<Rightarrow> Some incoming
                 | terminus_w \<Rightarrow> Some incoming
                 | single \<Rightarrow> (case filtered of [] \<Rightarrow> Some incoming | dir # _ \<Rightarrow> Some dir)))"

definition getDirectionToTile :: "int \<Rightarrow> int \<Rightarrow> int \<Rightarrow> int \<Rightarrow> CarDirection option" where
  "getDirectionToTile fromX fromY toX toY =
     (let dx = toX - fromX; dy = toY - fromY
      in if dx = -1 \<and> dy = 0 then Some North
         else if dx = 1 \<and> dy = 0 then Some South
         else if dx = 0 \<and> dy = -1 then Some East
         else if dx = 0 \<and> dy = 1 then Some West
         else None)"

text \<open>
  \<open>moveLoop\<close> is the loop \<^verbatim>\<open>while (train.progress >= 1)\<close> of \<^verbatim>\<open>updateTrain\<close>; its two
  \<^verbatim>\<open>break\<close>s are the branches that do not call it again.  \<open>enterTile\<close> is the rest of the loop
  body once the next tile was found valid: move, station stop, next direction, path
  history (\<^verbatim>\<open>path.shift()\<close> past 80 entries).  Each pass that goes on takes 1 from the progress,
  so the loop ends.
\<close>

definition enterTile :: "Grid \<Rightarrow> int \<Rightarrow> Train \<Rightarrow> int \<Rightarrow> int \<Rightarrow> Train" where
  "enterTile grid gridSize train newTileX newTileY =
     (let t1 = train\<lparr>tileX := newTileX, tileY := newTileY, progress := progress train - 1\<rparr>;
          t2 = (if isRailStationTile grid gridSize newTileX newTileY \<and>
                   train_type t1 = passenger_train
                then t1\<lparr>atStation := True, stationWaitTimer := STATION_STOP_DURATION\<rparr>
                else t1);
          t3 = (case pickNextDirection (direction t2) grid gridSize (tileX t2) (tileY t2) of
                  None \<Rightarrow> t2
                | Some nextDir \<Rightarrow> t2\<lparr>direction := nextDir\<rparr>);
          t4 = t3\<lparr>path := path t3 @ [(newTileX, newTileY)], pathIndex := pathIndex t3 + 1\<rparr>
      in if length (path t4) > 80
         then t4\<lparr>path := tl (path t4), pathIndex := pathIndex t4 - 1\<rparr>
         else t4)"

function moveLoop :: "Grid \<Rightarrow> int \<Rightarrow> Train \<Rightarrow> Train" where
  "moveLoop grid gridSize train =
     (if progress train \<ge> 1 then
        (let newTileX = tileX train + fst (DIRECTION_META_step (direction train));
             newTileY = tileY train + snd (DIRECTION_META_step (direction train))
         in if \<not> isRailTile grid gridSize newTileX newTileY \<and>
               \<not> isRailStationTile grid gridSize newTileX newTileY
            then
              (case pickNextDirection (direction train) grid gridSize (tileX train) (tileY train) of
                 None \<Rightarrow> train\<lparr>direction := OPPOSITE_DIRECTION (direction train), progress := 0.5\<rparr>
               | Some altDir \<Rightarrow> train\<lparr>direction := altDir, progress := 0.1\<rparr>)
            else moveLoop grid gridSize (enterTile grid gridSize train newTileX newTileY))
      else train)"
  by pat_completeness auto
termination
proof (relation "measure (\<lambda>(grid, gridSize, train). nat \<lfloor>progress train\<rfloor>)")
  fix grid :: Grid and gridSize :: int and train :: Train and x xa
  assume "1 \<le> progress train"
  moreover have "progress (enterTile grid gridSize train x xa) = progress train - 1"
    by (simp add: enterTile_def Let_def split: option.split)
  ultimately show "((grid, gridSize, enterTile grid gridSize train x xa), grid, gridSize, train)
       \<in> measure (\<lambda>(grid, gridSize, train). nat \<lfloor>progress train\<rfloor>)"
    by simp
qed simp

declare moveLoop.simps [simp del]

text \<open>
  \<open>updateCarriage\<close> is the body of the loop of \<^verbatim>\<open>updateCarriagePositions\<close> for carriage \<open>i\<close>.
  \<open>CarriageWalk\<close> holds the local variables of its inner loop
  \<^verbatim>\<open>while (carriageProgress < 0 && pathIdx > 0)\<close>, \<open>walkStep\<close> is one pass and \<open>walkBack\<close> the
  loop.  \<^verbatim>\<open>spawnTile\<close> is \<^verbatim>\<open>train.path[0]\<close>; the path history of a train is never empty (it
  starts with the spawn tile and is only shortened past 80 entries).
\<close>

record CarriageWalk =
  carriageTileX :: int
  carriageTileY :: int
  carriageProgress :: real
  carriageDirection :: CarDirection
  pathIdx :: int
  foundValidPosition :: bool

definition walkStep :: "Train \<Rightarrow> CarriageWalk \<Rightarrow> CarriageWalk" where
  "walkStep train w =
     (let w1 = w\<lparr>pathIdx := pathIdx w - 1, carriageProgress := carriageProgress w + 1\<rparr>
      in if pathIdx w1 \<ge> 0 \<and> pathIdx w1 < int (length (path train)) then
           (let prevTile = path train ! nat (pathIdx w1);
                w2 = w1\<lparr>carriageTileX := fst prevTile, carriageTileY := snd prevTile,
                        foundValidPosition := True\<rparr>
            in if pathIdx w1 + 1 < int (length (path train)) then
                 (let nextTile = path train ! nat (pathIdx w1 + 1)
                  in case getDirectionToTile (fst prevTile) (snd prevTile)
                            (fst nextTile) (snd nextTile) of
                       None \<Rightarrow> w2
                     | Some dir \<Rightarrow> w2\<lparr>carriageDirection := dir\<rparr>)
               else w2)
         else w1)"

function walkBack :: "Train \<Rightarrow> CarriageWalk \<Rightarrow> CarriageWalk" where
  "walkBack train w =
     (if carriageProgress w < 0 \<and> pathIdx w > 0 then walkBack train (walkStep train w) else w)"
  by pat_completeness auto
termination
proof (relation "measure (\<lambda>(train, w). nat (pathIdx w))")
  fix train :: Train and w :: CarriageWalk
  assume "carriageProgress w < 0 \<and> 0 < pathIdx w"
  moreover have "pathIdx (walkStep train w) = pathIdx w - 1"
    by (simp add: walkStep_def Let_def split: option.split)
  ultimately show "((train, walkStep train w), train, w) \<in> measure (\<lambda>(train, w). nat (pathIdx w))"
    by simp
qed simp

declare walkBack.simps [simp del]

definition updateCarriage :: "Train \<Rightarrow> nat \<Rightarrow> TrainCarriage \<Rightarrow> TrainCarriage" where
  "updateCarriage train i carriage =
     (if i = 0 then
        carriage\<lparr>car_tileX := tileX train, car_tileY := tileY train,
                 car_progress := progress train, car_direction := direction train\<rparr>
      else
        (let targetProgress = progress train - real i * CARRIAGE_SPACING;
             w = walkBack train
                   \<lparr>carriageTileX = tileX train, carriageTileY = tileY train,
                    carriageProgress = targetProgress, carriageDirection = direction train,
                    pathIdx = pathIndex train, foundValidPosition = False\<rparr>;
             spawnTile = path train ! 0;
             w' = (if \<not> foundValidPosition w \<and> carriageProgress w < 0
                   then w\<lparr>carriageTileX := fst spawnTile, carriageTileY := snd spawnTile,
                          carriageProgress := 0\<rparr>
                   else w);
             clamped = max 0 (min 0.99 (carriageProgress w'))
         in carriage\<lparr>car_tileX := carriageTileX w', car_tileY := carriageTileY w',
                     car_progress := clamped, car_direction := carriageDirection w'\<rparr>))"

definition updateCarriagePositions :: "Train \<Rightarrow> Grid \<Rightarrow> int \<Rightarrow> Train" where
  "updateCarriagePositions train grid gridSize =
     train\<lparr>carriages := map (\<lambda>(i, carriage). updateCarriage train i carriage)
                            (enumerate 0 (carriages train))\<rparr>"

definition updateTrain :: "Train \<Rightarrow> real \<Rightarrow> real \<Rightarrow> Grid \<Rightarrow> int \<Rightarrow> bool \<times> Train" where
  "updateTrain train delta speedMultiplier grid gridSize =
     (let t1 = train\<lparr>age := age train + delta * speedMultiplier\<rparr>
      in if age t1 > maxAge t1 then (False, t1)
         else if atStation t1 then
           (let t2 = t1\<lparr>stationWaitTimer := stationWaitTimer t1 - delta * speedMultiplier\<rparr>
            in if stationWaitTimer t2 \<le> 0 then (True, t2\<lparr>atStation := False\<rparr>)
               else (True, t2))
         else if \<not> isRailTile grid gridSize (tileX t1) (tileY t1) \<and>
                 \<not> isRailStationTile grid gridSize (tileX t1) (tileY t1)
              then (False, t1)
         else
           (let t2 = t1\<lparr>progress := progress t1 + speed t1 * delta * speedMultiplier\<rparr>;
                t3 = moveLoop grid gridSize t2
            in (True, updateCarriagePositions t3 grid gridSize)))"

section \<open>Train lifecycle manager\<close>

definition MIN_RAIL_TILES_FOR_TRAINS :: int where
  "MIN_RAIL_TILES_FOR_TRAINS = 10"

definition TRAIN_MAX_AGE :: real where
  "TRAIN_MAX_AGE = 60"

definition LOCOMOTIVE_COLORS :: "string list" where
  "LOCOMOTIVE_COLORS = [''#1e40af'', ''#dc2626'', ''#059669'', ''#7c3aed'', ''#ea580c'', ''#0891b2'']"

definition FREIGHT_COLORS :: "string list" where
  "FREIGHT_COLORS = [''#8B4513'', ''#696969'', ''#2F4F4F'', ''#8B0000'', ''#006400'', ''#4682B4'']"

definition PASSENGER_COLORS :: "string list" where
  "PASSENGER_COLORS = [''#C0C0C0'', ''#1e40af'', ''#059669'', ''#7c3aed'']"

text \<open>The nested loops \<^verbatim>\<open>for y < gridSize { for x < gridSize { ... } }\<close> visit the cells in
  this order.\<close>

definition gridCoords :: "int \<Rightarrow> (int \<times> int) list" where
  "gridCoords gridSize = concat (map (\<lambda>y. map (\<lambda>x. (x, y)) [0..gridSize - 1]) [0..gridSize - 1])"

definition findRailStations :: "Grid \<Rightarrow> int \<Rightarrow> (int \<times> int) list" where
  "findRailStations grid gridSize =
     filter (\<lambda>c. building_type (tileAt grid (fst c) (snd c)) = Rail_station) (gridCoords gridSize)"

definition countRailTiles :: "Grid \<Rightarrow> int \<Rightarrow> int" where
  "countRailTiles grid gridSize =
     int (length (filter
       (\<lambda>c. let tile = tileAt grid (fst c) (snd c)
            in building_type tile = Rail \<or>
               (building_type tile = Road \<and> hasRailOverlay tile = True))
       (gridCoords gridSize)))"

text \<open>
  \<^verbatim>\<open>Math.random()\<close> is an ambient source; here the draws are a sequence \<open>rand\<close> and every
  function that draws takes the number \<open>k\<close> of draws made so far and returns the new one.
  \<^verbatim>\<open>Math.floor(Math.random() * n)\<close> is \<open>randomIndex\<close>.
\<close>

type_synonym Random = "nat \<Rightarrow> real"

definition randomIndex :: "real \<Rightarrow> nat \<Rightarrow> nat" where
  "randomIndex r n = nat \<lfloor>r * real n\<rfloor>"

definition createPassengerTrain ::
  "int \<Rightarrow> int \<Rightarrow> int \<Rightarrow> CarDirection \<Rightarrow> Random \<Rightarrow> nat \<Rightarrow> Train \<times> nat" where
  "createPassengerTrain ident tx ty dir rand k =
     (let numCarriages = 5 + \<lfloor>rand k * (8 - 5 + 1)\<rfloor>;
          locomotiveColor = LOCOMOTIVE_COLORS ! randomIndex (rand (k + 1)) (length LOCOMOTIVE_COLORS);
          passengerColor = PASSENGER_COLORS ! randomIndex (rand (k + 2)) (length PASSENGER_COLORS);
          cars =
            [\<lparr>car_type = locomotive, car_color = locomotiveColor, car_progress = 0,
              car_tileX = tx, car_tileY = ty, car_direction = dir\<rparr>] @
            map (\<lambda>i. \<lparr>car_type = passenger, car_color = passengerColor,
                       car_progress = - real_of_int i * CARRIAGE_SPACING,
                       car_tileX = tx, car_tileY = ty, car_direction = dir\<rparr>)
                [1..numCarriages - 2] @
            (if numCarriages > 1
             then [\<lparr>car_type = caboose, car_color = locomotiveColor,
                    car_progress = - real_of_int (numCarriages - 1) * CARRIAGE_SPACING,
                    car_tileX = tx, car_tileY = ty, car_direction = dir\<rparr>]
             else [])
      in (\<lparr>train_id = ident, train_type = passenger_train, carriages = cars,
           tileX = tx, tileY = ty, direction = dir, progress = 0,
           speed = 0.25 + rand (k + 3) * 0.1,
           path = [(tx, ty)], pathIndex = 0, age = 0,
           maxAge = TRAIN_MAX_AGE + rand (k + 4) * 30,
           color = locomotiveColor, atStation = False, stationWaitTimer = 0\<rparr>,
          k + 5))"

definition freightTypes :: "CarriageType list" where
  "freightTypes = [freight_box, freight_tank, freight_flat]"

definition createFreightTrain ::
  "int \<Rightarrow> int \<Rightarrow> int \<Rightarrow> CarDirection \<Rightarrow> Random \<Rightarrow> nat \<Rightarrow> Train \<times> nat" where
  "createFreightTrain ident tx ty dir rand k =
     (let numCarriages = 6 + \<lfloor>rand k * (10 - 6 + 1)\<rfloor>;
          locomotiveColor = LOCOMOTIVE_COLORS ! randomIndex (rand (k + 1)) (length LOCOMOTIVE_COLORS);
          cars =
            [\<lparr>car_type = locomotive, car_color = locomotiveColor, car_progress = 0,
              car_tileX = tx, car_tileY = ty, car_direction = dir\<rparr>] @
            map (\<lambda>i. \<lparr>car_type = freightTypes !
                         randomIndex (rand (k + 2 + 2 * nat (i - 1))) (length freightTypes),
                       car_color = FREIGHT_COLORS !
                         randomIndex (rand (k + 3 + 2 * nat (i - 1))) (length FREIGHT_COLORS),
                       car_progress = - real_of_int i * CARRIAGE_SPACING,
                       car_tileX = tx, car_tileY = ty, car_direction = dir\<rparr>)
                [1..numCarriages - 2] @
            (if numCarriages > 1
             then [\<lparr>car_type = caboose, car_color = ''#8B0000'',
                    car_progress = - real_of_int (numCarriages - 1) * CARRIAGE_SPACING,
                    car_tileX = tx, car_tileY = ty, car_direction = dir\<rparr>]
             else []);
          k' = k + 2 + 2 * length [1..numCarriages - 2]
      in (\<lparr>train_id = ident, train_type = freight_train, carriages = cars,
           tileX = tx, tileY = ty, direction = dir, progress = 0,
           speed = 0.18 + rand k' * 0.08,
           path = [(tx, ty)], pathIndex = 0, age = 0,
           maxAge = TRAIN_MAX_AGE + rand (k' + 1) * 40,
           color = locomotiveColor, atStation = False, stationWaitTimer = 0\<rparr>,
          k' + 2))"

definition findAdjacentRailToStation ::
  "Grid \<Rightarrow> int \<Rightarrow> int \<Rightarrow> int \<Rightarrow> Random \<Rightarrow> nat \<Rightarrow> (int \<times> int \<times> CarDirection) option \<times> nat" where
  "findAdjacentRailToStation grid gridSize stationX stationY rand k =
     (case find (\<lambda>(dx, dy, dir). isRailTile grid gridSize (stationX + dx) (stationY + dy))
             [(-1, 0, South), (0, -1, West), (1, 0, North), (0, 1, East)] of
        Some (dx, dy, dir) \<Rightarrow> (Some (stationX + dx, stationY + dy, dir), k)
      | None \<Rightarrow>
          (case find (\<lambda>(dx, dy). isRailTile grid gridSize (stationX + dx) (stationY + dy) \<and>
                        length (getRailDirectionOptions grid gridSize (stationX + dx) (stationY + dy)) > 0)
                  [(-1, -1), (-1, 1), (1, -1), (1, 1), (2, 0), (0, 2), (-2, 0), (0, -2)] of
             Some (dx, dy) \<Rightarrow>
               (let options = getRailDirectionOptions grid gridSize (stationX + dx) (stationY + dy)
                in (Some (stationX + dx, stationY + dy,
                          options ! randomIndex (rand k) (length options)), k + 1))
           | None \<Rightarrow> (None, k)))"

definition findRandomRailTile ::
  "Grid \<Rightarrow> int \<Rightarrow> Random \<Rightarrow> nat \<Rightarrow> (int \<times> int) option \<times> nat" where
  "findRandomRailTile grid gridSize rand k =
     (let preferred = filter (\<lambda>c. isRailTile grid gridSize (fst c) (snd c) \<and>
                                  length (getRailDirectionOptions grid gridSize (fst c) (snd c)) \<ge> 2)
                        (gridCoords gridSize);
          railTiles = (if length preferred = 0
                       then filter (\<lambda>c. isRailTile grid gridSize (fst c) (snd c)) (gridCoords gridSize)
                       else preferred)
      in if length railTiles = 0 then (None, k)
         else (Some (railTiles ! randomIndex (rand k) (length railTiles)), k + 1))"

text \<open>
  \<open>spawnTrain\<close> returns the train (or \<open>None\<close> for \<^verbatim>\<open>null\<close>), the value of
  \<^verbatim>\<open>trainIdRef.current\<close> after the call, and the number of random draws made so far.
  \<open>spawn\<close> is the triple \<^verbatim>\<open>spawnX, spawnY, direction\<close> that the two branches assign, or \<open>None\<close>
  where a branch returns \<^verbatim>\<open>null\<close>.  The test \<^verbatim>\<open>stations.length > 0 && Math.random() < 0.7\<close> draws
  only when a station exists.
\<close>

definition spawnTrain ::
  "Grid \<Rightarrow> int \<Rightarrow> int \<Rightarrow> Random \<Rightarrow> nat \<Rightarrow> Train option \<times> int \<times> nat" where
  "spawnTrain grid gridSize trainIdRef rand k =
     (let railTileCount = countRailTiles grid gridSize
      in if railTileCount < MIN_RAIL_TILES_FOR_TRAINS then (None, trainIdRef, k)
         else
           (let stations = findRailStations grid gridSize;
                spawn =
                  (if length stations > 0 \<and> rand k < 0.7 then
                     (let station = stations ! randomIndex (rand (k + 1)) (length stations)
                      in findAdjacentRailToStation grid gridSize (fst station) (snd station)
                           rand (k + 2))
                   else
                     (let k0 = (if length stations > 0 then k + 1 else k)
                      in case findRandomRailTile grid gridSize rand k0 of
                           (None, k') \<Rightarrow> (None, k')
                         | (Some railTile, k') \<Rightarrow>
                             (let options = getRailDirectionOptions grid gridSize
                                              (fst railTile) (snd railTile)
                              in if length options = 0 then (None, k')
                                 else (Some (fst railTile, snd railTile,
                                             options ! randomIndex (rand k') (length options)),
                                       k' + 1))))
            in case spawn of
                 (None, k') \<Rightarrow> (None, trainIdRef, k')
               | (Some (spawnX, spawnY, dir), k') \<Rightarrow>
                   (let trainType = (if rand k' < 0.5 then passenger_train else freight_train);
                        made = (if trainType = passenger_train
                                then createPassengerTrain trainIdRef spawnX spawnY dir rand (k' + 1)
                                else createFreightTrain trainIdRef spawnX spawnY dir rand (k' + 1))
                    in (Some (fst made), trainIdRef + 1, snd made))))"

section \<open>Concrete grids and trains used as inputs\<close>

definition tile :: "BuildingType \<Rightarrow> Tile" where
  "tile b = \<lparr>building_type = b, hasRailOverlay = False\<rparr>"

text \<open>Two rail tiles \<open>(0,0)\<close> and \<open>(1,0)\<close> in the first row of a 2 by 2 grid.\<close>

definition twoGrid :: Grid where
  "twoGrid = [[tile Rail, tile Rail], [tile Other_building, tile Other_building]]"

text \<open>A 6 by 6 grid with a station whose origin is \<open>(3,3)\<close>; \<open>(2,3)\<close> and \<open>(5,4)\<close> are empty
  tiles outside the footprint.\<close>

definition stationGrid :: Grid where
  "stationGrid =
     [replicate 6 (tile Other_building),
      replicate 6 (tile Other_building),
      replicate 6 (tile Other_building),
      [tile Other_building, tile Other_building, tile Empty, tile Rail_station, tile Empty, tile Rail],
      [tile Other_building, tile Other_building, tile Other_building, tile Empty, tile Empty, tile Empty],
      replicate 6 (tile Other_building)]"

definition car :: "CarriageType \<Rightarrow> TrainCarriage" where
  "car ty = \<lparr>car_type = ty, car_color = ''#1e40af'', car_progress = 0,
             car_tileX = 0, car_tileY = 0, car_direction = South\<rparr>"

text \<open>A freight train of two carriages on tile \<open>(0,0)\<close> heading south with lead progress \<open>p\<close>.\<close>

definition shortTrain :: "real \<Rightarrow> Train" where
  "shortTrain p =
     \<lparr>train_id = 1, train_type = freight_train, carriages = [car locomotive, car caboose],
      tileX = 0, tileY = 0, direction = South, progress = p, speed = 1,
      path = [(0, 0)], pathIndex = 0, age = 0, maxAge = 60,
      color = ''#1e40af'', atStation = False, stationWaitTimer = 0\<rparr>"

text \<open>A 5 by 5 grid whose only rail is the line from \<open>(0,0)\<close> to \<open>(0,4)\<close>.\<close>

definition lineGrid :: Grid where
  "lineGrid = replicate 5 [tile Rail, tile Other_building, tile Other_building,
                           tile Other_building, tile Other_building]"

text \<open>A 3 by 3 grid with a ring of rail around the tile \<open>(1,1)\<close>.\<close>

definition ringGrid :: Grid where
  "ringGrid = [[tile Rail, tile Rail, tile Rail],
               [tile Rail, tile Other_building, tile Rail],
               [tile Rail, tile Rail, tile Rail]]"

text \<open>A 3 by 3 grid with no rail tile.\<close>

definition grassGrid :: Grid where
  "grassGrid = replicate 3 (replicate 3 (tile Other_building))"

section \<open>Termination of the breadth-first search\<close>

lemma visitNeighbor_cases:
  "visitNeighbor grid gridSize current (queue, visited) d = (queue, visited) \<or>
   (\<exists>c. c \<in> cells gridSize \<and> c \<notin> visited \<and>
        visitNeighbor grid gridSize current (queue, visited) d =
          (queue @ [\<lparr>qx = fst c, qy = snd c, qpath = qpath current @ [c]\<rparr>], insert c visited))"
  by (auto simp: visitNeighbor_def Let_def cells_def)

lemma visitNeighbor_progress:
  "(snd (visitNeighbor grid gridSize current (q, V) d) = V \<and>
    fst (visitNeighbor grid gridSize current (q, V) d) = q) \<or>
   card (cells gridSize - snd (visitNeighbor grid gridSize current (q, V) d))
     < card (cells gridSize - V)"
  using visitNeighbor_cases[of grid gridSize current q V d]
proof (elim disjE exE conjE)
  fix c assume c: "c \<in> cells gridSize" "c \<notin> V"
    and eq: "visitNeighbor grid gridSize current (q, V) d =
        (q @ [\<lparr>qx = fst c, qy = snd c, qpath = qpath current @ [c]\<rparr>], insert c V)"
  have "cells gridSize - insert c V \<subset> cells gridSize - V" using c by auto
  moreover have "finite (cells gridSize - V)" by (simp add: cells_def)
  ultimately have "card (cells gridSize - insert c V) < card (cells gridSize - V)"
    by (rule psubset_card_mono[rotated])
  then show ?thesis using eq by simp
qed simp

lemma foldl_visitNeighbor_progress:
  "(snd (foldl (visitNeighbor grid gridSize current) (q, V) ds) = V \<and>
    fst (foldl (visitNeighbor grid gridSize current) (q, V) ds) = q) \<or>
   card (cells gridSize - snd (foldl (visitNeighbor grid gridSize current) (q, V) ds))
     < card (cells gridSize - V)"
proof (induction ds arbitrary: q V)
  case Nil
  show ?case by simp
next
  case (Cons d ds)
  obtain q' V' where st: "visitNeighbor grid gridSize current (q, V) d = (q', V')"
    by (cases "visitNeighbor grid gridSize current (q, V) d")
  from visitNeighbor_progress[of grid gridSize current q V d] st
  have one: "(V' = V \<and> q' = q) \<or> card (cells gridSize - V') < card (cells gridSize - V)"
    by simp
  have fold_eq: "foldl (visitNeighbor grid gridSize current) (q, V) (d # ds) =
                 foldl (visitNeighbor grid gridSize current) (q', V') ds"
    by (simp add: st)
  from one show ?case
  proof
    assume "V' = V \<and> q' = q"
    then show ?thesis using Cons.IH[of q V] fold_eq by simp
  next
    assume less: "card (cells gridSize - V') < card (cells gridSize - V)"
    from Cons.IH[of q' V']
    have "card (cells gridSize - snd (foldl (visitNeighbor grid gridSize current) (q', V') ds))
            \<le> card (cells gridSize - V')"
      by (elim disjE conjE) simp_all
    then show ?thesis using less fold_eq by simp
  qed
qed

lemma visitNeighbors_progress:
  "(snd (visitNeighbors grid gridSize current (q, V)) = V \<and>
    fst (visitNeighbors grid gridSize current (q, V)) = q) \<or>
   card (cells gridSize - snd (visitNeighbors grid gridSize current (q, V)))
     < card (cells gridSize - V)"
  unfolding visitNeighbors_def by (rule foldl_visitNeighbor_progress)

termination bfsLoop
proof (relation "measures [\<lambda>(grid, gridSize, endX, endY, queue, visited). card (cells gridSize - visited),
                           \<lambda>(grid, gridSize, endX, endY, queue, visited). length queue]")
  fix grid :: Grid and gridSize endX endY :: int and current queue and visited :: "(int \<times> int) set"
  show "((grid, gridSize, endX, endY, fst (visitNeighbors grid gridSize current (queue, visited)),
          snd (visitNeighbors grid gridSize current (queue, visited))),
         (grid, gridSize, endX, endY, current # queue, visited))
        \<in> measures [\<lambda>(grid, gridSize, endX, endY, queue, visited). card (cells gridSize - visited),
                           \<lambda>(grid, gridSize, endX, endY, queue, visited). length queue]"
    using visitNeighbors_progress[of grid gridSize current queue visited]
    by (auto simp: case_prod_unfold)
qed simp

section \<open>Facts about the oracle\<close>

lemma hasRailAt_eq_hasRailAtPosition:
  "hasRailAt grid gridSize x y = hasRailAtPosition grid gridSize x y"
  by (simp add: hasRailAt_def hasRailAtPosition_def)

lemma hasRailAtPosition_iff:
  "hasRailAtPosition grid gridSize x y =
     (isRailTile grid gridSize x y \<or> isRailStationTile grid gridSize x y)"
  by (auto simp: hasRailAtPosition_def isRailTile_def isRailStationTile_def Let_def)

lemma wf_twoGrid: "wf_grid twoGrid 2"
  by (simp add: wf_grid_def twoGrid_def)

lemma twoGrid_oracle:
  "isRailTile twoGrid 2 0 0" "isRailTile twoGrid 2 1 0"
  "\<not> isRailTile twoGrid 2 2 0" "\<not> isRailStationTile twoGrid 2 2 0"
  "\<not> isRailStationTile twoGrid 2 0 0" "\<not> isRailStationTile twoGrid 2 1 0"
  "getAdjacentRail twoGrid 2 1 0 = \<lparr>north = True, east = False, south = False, west = False\<rparr>"
  "getAdjacentRail twoGrid 2 0 0 = \<lparr>north = False, east = False, south = True, west = False\<rparr>"
  by (simp_all add: twoGrid_def tile_def isRailTile_def isRailStationTile_def tileAt_def
      getAdjacentRail_def hasRailAtPosition_def Let_def)

section \<open>Track classifier: the decision table\<close>
text \<open>
  C1.  For each of the 16 connection patterns (north, east, south, west) \<open>getTrackType\<close>
  returns the variant of the decision table: four connections give \<open>junction_cross\<close>;
  three give the \<open>junction_t\<close> variant named for the missing direction; two opposite ones
  give \<open>straight_ns\<close> or \<open>straight_ew\<close>; two adjacent ones give the matching curve; one
  gives the terminus facing away from it (a lone north connection gives \<open>terminus_s\<close>);
  none gives \<open>single\<close>.  The sixteen rows are listed one by one.
\<close>

theorem getTrackType_decision_table:
  "getTrackType \<lparr>north = True, east = True, south = True, west = True\<rparr> = junction_cross \<and>
   getTrackType \<lparr>north = False, east = True, south = True, west = True\<rparr> = junction_t_n \<and>
   getTrackType \<lparr>north = True, east = False, south = True, west = True\<rparr> = junction_t_e \<and>
   getTrackType \<lparr>north = True, east = True, south = False, west = True\<rparr> = junction_t_s \<and>
   getTrackType \<lparr>north = True, east = True, south = True, west = False\<rparr> = junction_t_w \<and>
   getTrackType \<lparr>north = True, east = False, south = True, west = False\<rparr> = straight_ns \<and>
   getTrackType \<lparr>north = False, east = True, south = False, west = True\<rparr> = straight_ew \<and>
   getTrackType \<lparr>north = True, east = True, south = False, west = False\<rparr> = curve_ne \<and>
   getTrackType \<lparr>north = True, east = False, south = False, west = True\<rparr> = curve_nw \<and>
   getTrackType \<lparr>north = False, east = True, south = True, west = False\<rparr> = curve_se \<and>
   getTrackType \<lparr>north = False, east = False, south = True, west = True\<rparr> = curve_sw \<and>
   getTrackType \<lparr>north = True, east = False, south = False, west = False\<rparr> = terminus_s \<and>
   getTrackType \<lparr>north = False, east = True, south = False, west = False\<rparr> = terminus_w \<and>
   getTrackType \<lparr>north = False, east = False, south = True, west = False\<rparr> = terminus_n \<and>
   getTrackType \<lparr>north = False, east = False, south = False, west = True\<rparr> = terminus_e \<and>
   getTrackType \<lparr>north = False, east = False, south = False, west = False\<rparr> = single"
  by (simp add: getTrackType_def)

section \<open>Grid adjacency oracle: station footprint\<close>

text \<open>
  C8.  On a grid of at least 6 by 6 tiles whose tile \<open>(3,3)\<close> is \<open>rail_station\<close>, whose tiles
  \<open>(4,3)\<close>, \<open>(3,4)\<close>, \<open>(4,4)\<close> are \<open>empty\<close>, and whose surrounding tiles \<open>(2,3)\<close>, \<open>(5,4)\<close>,
  \<open>(1,3)\<close>, \<open>(2,2)\<close>, \<open>(1,2)\<close>, \<open>(5,3)\<close> are not \<open>rail_station\<close>, \<open>isRailStationTile\<close> is true for
  the four footprint tiles and false for \<open>(2,3)\<close> and \<open>(5,4)\<close>.  For an \<open>empty\<close> tile inside the
  grid the answer is decided by the three tiles \<open>(x-1,y)\<close>, \<open>(x,y-1)\<close> and \<open>(x-1,y-1)\<close>, which the
  source's comments call the west, north and north-west neighbours.
\<close>

theorem isRailStationTile_footprint:
  assumes "wf_grid grid gridSize" and "6 \<le> gridSize"
    and "building_type (tileAt grid 3 3) = Rail_station"
    and "building_type (tileAt grid 4 3) = Empty"
    and "building_type (tileAt grid 3 4) = Empty"
    and "building_type (tileAt grid 4 4) = Empty"
    and "building_type (tileAt grid 2 3) \<noteq> Rail_station"
    and "building_type (tileAt grid 1 3) \<noteq> Rail_station"
    and "building_type (tileAt grid 2 2) \<noteq> Rail_station"
    and "building_type (tileAt grid 1 2) \<noteq> Rail_station"
    and "building_type (tileAt grid 5 4) \<noteq> Rail_station"
    and "building_type (tileAt grid 5 3) \<noteq> Rail_station"
  shows "isRailStationTile grid gridSize 3 3 \<and> isRailStationTile grid gridSize 4 3 \<and>
         isRailStationTile grid gridSize 3 4 \<and> isRailStationTile grid gridSize 4 4 \<and>
         \<not> isRailStationTile grid gridSize 2 3 \<and> \<not> isRailStationTile grid gridSize 5 4 \<and>
         (\<forall>x y. 0 \<le> x \<and> x < gridSize \<and> 0 \<le> y \<and> y < gridSize \<and>
                building_type (tileAt grid x y) = Empty \<longrightarrow>
                isRailStationTile grid gridSize x y =
                  ((x > 0 \<and> building_type (tileAt grid (x - 1) y) = Rail_station) \<or>
                   (y > 0 \<and> building_type (tileAt grid x (y - 1)) = Rail_station) \<or>
                   (x > 0 \<and> y > 0 \<and> building_type (tileAt grid (x - 1) (y - 1)) = Rail_station)))"
  using assms by (auto simp: isRailStationTile_def Let_def)

theorem isRailStationTile_footprint_witness:
  "wf_grid stationGrid 6 \<and>
   isRailStationTile stationGrid 6 3 3 \<and> isRailStationTile stationGrid 6 4 3 \<and>
   isRailStationTile stationGrid 6 3 4 \<and> isRailStationTile stationGrid 6 4 4 \<and>
   \<not> isRailStationTile stationGrid 6 2 3 \<and> \<not> isRailStationTile stationGrid 6 5 4 \<and>
   building_type (tileAt stationGrid 2 3) = Empty \<and>
   building_type (tileAt stationGrid 5 4) = Empty"
proof -
  have wf: "wf_grid stationGrid 6"
    by (simp add: wf_grid_def stationGrid_def)
  have t: "building_type (tileAt stationGrid 3 3) = Rail_station"
    "building_type (tileAt stationGrid 4 3) = Empty"
    "building_type (tileAt stationGrid 3 4) = Empty"
    "building_type (tileAt stationGrid 4 4) = Empty"
    "building_type (tileAt stationGrid 2 3) \<noteq> Rail_station"
    "building_type (tileAt stationGrid 1 3) \<noteq> Rail_station"
    "building_type (tileAt stationGrid 2 2) \<noteq> Rail_station"
    "building_type (tileAt stationGrid 1 2) \<noteq> Rail_station"
    "building_type (tileAt stationGrid 5 4) \<noteq> Rail_station"
    "building_type (tileAt stationGrid 5 3) \<noteq> Rail_station"
    by (simp_all add: tileAt_def stationGrid_def tile_def)
  have e: "building_type (tileAt stationGrid 2 3) = Empty"
    "building_type (tileAt stationGrid 5 4) = Empty"
    by (simp_all add: tileAt_def stationGrid_def tile_def)
  from isRailStationTile_footprint[OF wf _ t] wf e show ?thesis by simp
qed

section \<open>Grid adjacency oracle: the overlay variant\<close>

text \<open>
  C4 (as stated, refuted).  The claim says that some grid and coordinate exist at which
  \<open>getAdjacentRailForOverlay\<close> and \<open>getAdjacentRail\<close> return different connections.  No such
  input exists: the closure \<open>hasRailAt\<close> and \<open>hasRailAtPosition\<close> are the same expression.
\<close>

theorem overlay_oracle_never_differs:
  "\<not> (\<exists>grid gridSize x y.
         getAdjacentRailForOverlay grid gridSize x y \<noteq> getAdjacentRail grid gridSize x y)"
  by (simp add: getAdjacentRailForOverlay_def getAdjacentRail_def hasRailAt_eq_hasRailAtPosition)

text \<open>
  C4 (amended).  \<open>getAdjacentRailForOverlay\<close> and \<open>getAdjacentRail\<close> return the same
  connections at every grid, grid size and coordinate; in both, a neighbour counts as
  rail-occupied exactly when \<open>isRailTile\<close> or \<open>isRailStationTile\<close> holds there (a rail tile, a
  road tile with rail overlay, the \<open>rail_station\<close> origin tile or an \<open>empty\<close> tile of its
  footprint).
\<close>

theorem getAdjacentRailForOverlay_eq_getAdjacentRail:
  "getAdjacentRailForOverlay grid gridSize x y = getAdjacentRail grid gridSize x y \<and>
   getAdjacentRail grid gridSize x y =
     \<lparr> north = isRailTile grid gridSize (x - 1) y \<or> isRailStationTile grid gridSize (x - 1) y,
       east = isRailTile grid gridSize x (y - 1) \<or> isRailStationTile grid gridSize x (y - 1),
       south = isRailTile grid gridSize (x + 1) y \<or> isRailStationTile grid gridSize (x + 1) y,
       west = isRailTile grid gridSize x (y + 1) \<or> isRailStationTile grid gridSize x (y + 1) \<rparr>"
  by (simp add: getAdjacentRailForOverlay_def getAdjacentRail_def hasRailAt_eq_hasRailAtPosition
      hasRailAtPosition_iff)

section \<open>Rail pathfinder: start equals end\<close>

text \<open>
  C10.  When start and end are the same coordinate, \<open>findPathOnRails\<close> returns the
  one-element path holding it, whatever the grid holds there and also outside the grid: the
  start entry is dequeued and matched against the goal before any tile is read.
\<close>

theorem findPathOnRails_start_is_end:
  "findPathOnRails grid gridSize startX startY startX startY = Some [(startX, startY)]"
  by (simp add: findPathOnRails_def)

section \<open>Train movement engine: station dwell\<close>

text \<open>
  C9.  For a train with the at-station flag set whose age after the increment does not
  exceed \<open>maxAge\<close>, \<open>updateTrain\<close> returns true; the age grows and the dwell timer shrinks by
  \<open>delta * speedMultiplier\<close>, the flag is cleared exactly when the new timer is at most 0, and
  every other field (lead tile, heading, lead progress, path history, carriages) is the
  train's own.
\<close>

theorem updateTrain_station_dwell:
  assumes "atStation train"
    and "age train + delta * speedMultiplier \<le> maxAge train"
  shows "updateTrain train delta speedMultiplier grid gridSize =
           (True, train\<lparr>age := age train + delta * speedMultiplier,
                        stationWaitTimer := stationWaitTimer train - delta * speedMultiplier,
                        atStation := \<not> (stationWaitTimer train - delta * speedMultiplier \<le> 0)\<rparr>)"
  using assms by (simp add: updateTrain_def Let_def)

theorem updateTrain_station_dwell_witness:
  "atStation ((shortTrain 0.4)\<lparr>atStation := True, stationWaitTimer := 0.3\<rparr>) \<and>
   age ((shortTrain 0.4)\<lparr>atStation := True, stationWaitTimer := 0.3\<rparr>) + 0.5 * 1
     \<le> maxAge ((shortTrain 0.4)\<lparr>atStation := True, stationWaitTimer := 0.3\<rparr>) \<and>
   updateTrain ((shortTrain 0.4)\<lparr>atStation := True, stationWaitTimer := 0.3\<rparr>) 0.5 1 twoGrid 2 =
     (True, (shortTrain 0.4)\<lparr>age := 0.5, stationWaitTimer := - 0.2, atStation := False\<rparr>)"
proof -
  let ?t = "(shortTrain 0.4)\<lparr>atStation := True, stationWaitTimer := 0.3\<rparr>"
  have a: "atStation ?t" by simp
  have b: "age ?t + 0.5 * 1 \<le> maxAge ?t" by (simp add: shortTrain_def)
  from updateTrain_station_dwell[OF a b, of twoGrid 2] a b show ?thesis
    by (simp add: shortTrain_def)
qed

section \<open>Train movement engine: the lead progress\<close>

lemma progress_enterTile:
  "progress (enterTile grid gridSize train x y) = progress train - 1"
  by (simp add: enterTile_def Let_def split: option.split)

lemma moveLoop_progress:
  "0 \<le> progress train \<Longrightarrow>
   0 \<le> progress (moveLoop grid gridSize train) \<and> progress (moveLoop grid gridSize train) < 1"
proof (induction grid gridSize train rule: moveLoop.induct)
  case (1 grid gridSize train)
  show ?case
  proof (cases "progress train \<ge> 1")
    case False
    then show ?thesis using "1.prems" by (subst moveLoop.simps, subst moveLoop.simps) simp
  next
    case True
    define nx where "nx = tileX train + fst (DIRECTION_META_step (direction train))"
    define ny where "ny = tileY train + snd (DIRECTION_META_step (direction train))"
    show ?thesis
    proof (cases "\<not> isRailTile grid gridSize nx ny \<and> \<not> isRailStationTile grid gridSize nx ny")
      case blocked: True
      have "moveLoop grid gridSize train =
              (case pickNextDirection (direction train) grid gridSize (tileX train) (tileY train) of
                 None \<Rightarrow> train\<lparr>direction := OPPOSITE_DIRECTION (direction train), progress := 0.5\<rparr>
               | Some altDir \<Rightarrow> train\<lparr>direction := altDir, progress := 0.1\<rparr>)"
        using True blocked by (subst moveLoop.simps) (simp add: nx_def ny_def Let_def)
      then show ?thesis by (simp split: option.split)
    next
      case free: False
      have eq: "moveLoop grid gridSize train =
                  moveLoop grid gridSize (enterTile grid gridSize train nx ny)"
        using True free by (subst moveLoop.simps) (auto simp: nx_def ny_def Let_def)
      have "0 \<le> progress (enterTile grid gridSize train nx ny)"
        using True by (simp add: progress_enterTile)
      from "1.IH"[OF True nx_def ny_def _ this] free show ?thesis
        unfolding eq by auto
    qed
  qed
qed

lemma progress_updateCarriagePositions:
  "progress (updateCarriagePositions train grid gridSize) = progress train"
  by (simp add: updateCarriagePositions_def)

lemma moveLoop_blocked:
  assumes "1 \<le> progress train"
    and "\<not> isRailTile grid gridSize (tileX train + fst (DIRECTION_META_step (direction train)))
             (tileY train + snd (DIRECTION_META_step (direction train)))"
    and "\<not> isRailStationTile grid gridSize (tileX train + fst (DIRECTION_META_step (direction train)))
             (tileY train + snd (DIRECTION_META_step (direction train)))"
  shows "moveLoop grid gridSize train =
           (case pickNextDirection (direction train) grid gridSize (tileX train) (tileY train) of
              None \<Rightarrow> train\<lparr>direction := OPPOSITE_DIRECTION (direction train), progress := 0.5\<rparr>
            | Some altDir \<Rightarrow> train\<lparr>direction := altDir, progress := 0.1\<rparr>)"
  using assms by (subst moveLoop.simps) (simp add: Let_def)

lemma pickNextDirection_terminus:
  assumes "getTrackType (getAdjacentRail grid gridSize x y)
             \<in> {terminus_n, terminus_e, terminus_s, terminus_w}"
  shows "pickNextDirection d grid gridSize x y = Some (OPPOSITE_DIRECTION d)"
proof -
  define a where "a = hasRailAtPosition grid gridSize (x - 1) y"
  define b where "b = hasRailAtPosition grid gridSize x (y - 1)"
  define c where "c = hasRailAtPosition grid gridSize (x + 1) y"
  define e where "e = hasRailAtPosition grid gridSize x (y + 1)"
  have conn: "getAdjacentRail grid gridSize x y = \<lparr>north = a, east = b, south = c, west = e\<rparr>"
    by (simp add: getAdjacentRail_def a_def b_def c_def e_def)
  have opts: "getRailDirectionOptions grid gridSize x y =
                (if a then [North] else []) @ (if b then [East] else []) @
                (if c then [South] else []) @ (if e then [West] else [])"
    by (simp add: getRailDirectionOptions_def a_def b_def c_def e_def)
  from assms show ?thesis
    unfolding pickNextDirection_def conn opts
    by (cases a; cases b; cases c; cases e; cases d) (simp_all add: getTrackType_def Let_def)
qed

text \<open>
  C6.  For a train whose lead progress is in \<open>[0,1)\<close> and whose path history is not empty,
  with non-negative \<open>delta\<close>, \<open>speedMultiplier\<close> and speed, on a square grid of the given size: if \<open>updateTrain\<close> returns
  true then the lead progress is in \<open>[0,1)\<close> again.  (\<open>moveLoop\<close> is a total function: the
  tile-crossing loop ends for every real progress.)
\<close>

theorem updateTrain_progress_bound:
  assumes "wf_grid grid gridSize" and "path train \<noteq> []"
    and "0 \<le> progress train" and "progress train < 1"
    and "0 \<le> delta" and "0 \<le> speedMultiplier" and "0 \<le> speed train"
    and "fst (updateTrain train delta speedMultiplier grid gridSize) = True"
  shows "0 \<le> progress (snd (updateTrain train delta speedMultiplier grid gridSize)) \<and>
         progress (snd (updateTrain train delta speedMultiplier grid gridSize)) < 1"
proof -
  let ?t1 = "train\<lparr>age := age train + delta * speedMultiplier\<rparr>"
  let ?t2 = "?t1\<lparr>progress := progress ?t1 + speed ?t1 * delta * speedMultiplier\<rparr>"
  have "0 \<le> progress ?t2" using assms(3-7) by simp
  from moveLoop_progress[OF this, of grid gridSize]
  have "0 \<le> progress (moveLoop grid gridSize ?t2) \<and> progress (moveLoop grid gridSize ?t2) < 1" .
  then show ?thesis
    using assms(3,4,8)
    by (auto simp: updateTrain_def Let_def progress_updateCarriagePositions split: if_splits)
qed

theorem updateTrain_progress_bound_witness:
  "wf_grid twoGrid 2 \<and> path (shortTrain 0.9) \<noteq> [] \<and>
   0 \<le> progress (shortTrain 0.9) \<and> progress (shortTrain 0.9) < 1 \<and>
   (0::real) \<le> 0.2 \<and> (0::real) \<le> 1 \<and> 0 \<le> speed (shortTrain 0.9) \<and>
   fst (updateTrain (shortTrain 0.9) 0.2 1 twoGrid 2) = True \<and>
   tileX (snd (updateTrain (shortTrain 0.9) 0.2 1 twoGrid 2)) = 1 \<and>
   progress (snd (updateTrain (shortTrain 0.9) 0.2 1 twoGrid 2)) = 0.1 \<and>
   0 \<le> progress (snd (updateTrain (shortTrain 0.9) 0.2 1 twoGrid 2)) \<and>
   progress (snd (updateTrain (shortTrain 0.9) 0.2 1 twoGrid 2)) < 1"
proof -
  let ?t = "shortTrain 0.9"
  have h: "path ?t \<noteq> []" "0 \<le> progress ?t" "progress ?t < 1" "(0::real) \<le> 0.2" "(0::real) \<le> 1" "0 \<le> speed ?t"
    by (simp_all add: shortTrain_def)
  have pick: "pickNextDirection South twoGrid 2 1 0 = Some North"
    using pickNextDirection_terminus[of twoGrid 2 1 0 South]
    by (simp add: twoGrid_oracle getTrackType_def)
  have run: "fst (updateTrain ?t 0.2 1 twoGrid 2) = True \<and>
             tileX (snd (updateTrain ?t 0.2 1 twoGrid 2)) = 1 \<and>
             progress (snd (updateTrain ?t 0.2 1 twoGrid 2)) = 0.1"
    by (simp add: updateTrain_def Let_def shortTrain_def twoGrid_oracle moveLoop.simps
        enterTile_def pick updateCarriagePositions_def)
  from updateTrain_progress_bound[OF wf_twoGrid h] wf_twoGrid h run show ?thesis by simp
qed

section \<open>Train movement engine: bounce at a terminus\<close>

text \<open>
  C3 (as stated, refuted).  On the 2 by 2 grid \<open>twoGrid\<close> the tile \<open>(1,0)\<close> is a terminus (its
  only connection is to the north, so it is \<open>terminus_s\<close>) and the tile to its south is off
  the grid.  A train there heading south whose progress grows from 0.9 to 1.1 keeps its
  tile, ends heading north and \<open>updateTrain\<close> returns true, but its lead progress is 0.1,
  not 0.5.  The claim's example tile \<open>terminus_n\<close> has its connection to the south, as
  tile \<open>(0,0)\<close> shows: a train heading south there has track ahead.
\<close>

theorem terminus_bounce_progress_is_tenth:
  "getTrackType (getAdjacentRail twoGrid 2 1 0) = terminus_s \<and>
   \<not> isRailTile twoGrid 2 2 0 \<and> \<not> isRailStationTile twoGrid 2 2 0 \<and>
   fst (updateTrain ((shortTrain 0.9)\<lparr>tileX := 1, path := [(1, 0)]\<rparr>) 0.2 1 twoGrid 2) = True \<and>
   direction (snd (updateTrain ((shortTrain 0.9)\<lparr>tileX := 1, path := [(1, 0)]\<rparr>) 0.2 1 twoGrid 2)) = North \<and>
   progress (snd (updateTrain ((shortTrain 0.9)\<lparr>tileX := 1, path := [(1, 0)]\<rparr>) 0.2 1 twoGrid 2)) = 0.1 \<and>
   progress (snd (updateTrain ((shortTrain 0.9)\<lparr>tileX := 1, path := [(1, 0)]\<rparr>) 0.2 1 twoGrid 2)) \<noteq> 0.5 \<and>
   getTrackType (getAdjacentRail twoGrid 2 0 0) = terminus_n \<and> isRailTile twoGrid 2 1 0"
proof -
  let ?t = "(shortTrain 0.9)\<lparr>tileX := 1, path := [(1, 0)]\<rparr>"
  let ?t2 = "?t\<lparr>age := age ?t + 0.2 * 1, progress := progress ?t + speed ?t * 0.2 * 1\<rparr>"
  have ty: "getTrackType (getAdjacentRail twoGrid 2 1 0) = terminus_s"
    "getTrackType (getAdjacentRail twoGrid 2 0 0) = terminus_n"
    by (simp_all add: twoGrid_oracle getTrackType_def)
  have pick: "pickNextDirection South twoGrid 2 1 0 = Some North"
    using pickNextDirection_terminus[of twoGrid 2 1 0 South] ty by simp
  have ml: "moveLoop twoGrid 2 ?t2 = ?t2\<lparr>direction := North, progress := 0.1\<rparr>"
    by (subst moveLoop_blocked) (simp_all add: shortTrain_def twoGrid_oracle pick)
  have upd: "updateTrain ?t 0.2 1 twoGrid 2 =
               (True, updateCarriagePositions (?t2\<lparr>direction := North, progress := 0.1\<rparr>) twoGrid 2)"
    unfolding updateTrain_def Let_def
    using ml by (simp add: shortTrain_def twoGrid_oracle)
  show ?thesis
    unfolding upd by (simp add: twoGrid_oracle getTrackType_def updateCarriagePositions_def)
qed

text \<open>
  C3 (amended).  On a square grid of the given size, for a moving train (not dwelling, not
  expired, its path history not empty) on a valid tile that is a terminus, whose heading
  points at a tile that is neither rail nor station, when the progress reaches 1: \<open>updateTrain\<close> returns true, the heading becomes the opposite
  direction, the lead progress becomes 0.1, and the lead tile and the path history are
  unchanged.
\<close>

theorem updateTrain_terminus_reverses:
  assumes "wf_grid grid gridSize" and "path train \<noteq> []"
    and "\<not> atStation train"
    and "age train + delta * speedMultiplier \<le> maxAge train"
    and "isRailTile grid gridSize (tileX train) (tileY train) \<or>
         isRailStationTile grid gridSize (tileX train) (tileY train)"
    and "getTrackType (getAdjacentRail grid gridSize (tileX train) (tileY train))
           \<in> {terminus_n, terminus_e, terminus_s, terminus_w}"
    and "\<not> isRailTile grid gridSize (tileX train + fst (DIRECTION_META_step (direction train)))
             (tileY train + snd (DIRECTION_META_step (direction train)))"
    and "\<not> isRailStationTile grid gridSize (tileX train + fst (DIRECTION_META_step (direction train)))
             (tileY train + snd (DIRECTION_META_step (direction train)))"
    and "1 \<le> progress train + speed train * delta * speedMultiplier"
  shows "fst (updateTrain train delta speedMultiplier grid gridSize) = True \<and>
         direction (snd (updateTrain train delta speedMultiplier grid gridSize)) =
           OPPOSITE_DIRECTION (direction train) \<and>
         progress (snd (updateTrain train delta speedMultiplier grid gridSize)) = 0.1 \<and>
         tileX (snd (updateTrain train delta speedMultiplier grid gridSize)) = tileX train \<and>
         tileY (snd (updateTrain train delta speedMultiplier grid gridSize)) = tileY train \<and>
         path (snd (updateTrain train delta speedMultiplier grid gridSize)) = path train"
proof -
  let ?t2 = "train\<lparr>age := age train + delta * speedMultiplier,
                   progress := progress train + speed train * delta * speedMultiplier\<rparr>"
  have "moveLoop grid gridSize ?t2 =
          ?t2\<lparr>direction := OPPOSITE_DIRECTION (direction train), progress := 0.1\<rparr>"
    using assms(6-9)
    by (subst moveLoop_blocked) (simp_all add: pickNextDirection_terminus)
  then show ?thesis
    using assms(3-5)
    by (auto simp: updateTrain_def Let_def updateCarriagePositions_def)
qed

theorem updateTrain_terminus_reverses_witness:
  "wf_grid twoGrid 2 \<and>
   getTrackType (getAdjacentRail twoGrid 2 1 0) = terminus_s \<and>
   \<not> isRailTile twoGrid 2 2 0 \<and> \<not> isRailStationTile twoGrid 2 2 0 \<and>
   fst (updateTrain ((shortTrain 0.9)\<lparr>tileX := 1, path := [(1, 0)]\<rparr>) 0.2 1 twoGrid 2) = True \<and>
   direction (snd (updateTrain ((shortTrain 0.9)\<lparr>tileX := 1, path := [(1, 0)]\<rparr>) 0.2 1 twoGrid 2)) = North \<and>
   progress (snd (updateTrain ((shortTrain 0.9)\<lparr>tileX := 1, path := [(1, 0)]\<rparr>) 0.2 1 twoGrid 2)) = 0.1 \<and>
   tileX (snd (updateTrain ((shortTrain 0.9)\<lparr>tileX := 1, path := [(1, 0)]\<rparr>) 0.2 1 twoGrid 2)) = 1 \<and>
   tileY (snd (updateTrain ((shortTrain 0.9)\<lparr>tileX := 1, path := [(1, 0)]\<rparr>) 0.2 1 twoGrid 2)) = 0"
proof -
  let ?t = "(shortTrain 0.9)\<lparr>tileX := 1, path := [(1, 0)]\<rparr>"
  have h: "path ?t \<noteq> []" "\<not> atStation ?t" "age ?t + 0.2 * 1 \<le> maxAge ?t"
    "isRailTile twoGrid 2 (tileX ?t) (tileY ?t) \<or> isRailStationTile twoGrid 2 (tileX ?t) (tileY ?t)"
    "getTrackType (getAdjacentRail twoGrid 2 (tileX ?t) (tileY ?t))
       \<in> {terminus_n, terminus_e, terminus_s, terminus_w}"
    "\<not> isRailTile twoGrid 2 (tileX ?t + fst (DIRECTION_META_step (direction ?t)))
         (tileY ?t + snd (DIRECTION_META_step (direction ?t)))"
    "\<not> isRailStationTile twoGrid 2 (tileX ?t + fst (DIRECTION_META_step (direction ?t)))
         (tileY ?t + snd (DIRECTION_META_step (direction ?t)))"
    "1 \<le> progress ?t + speed ?t * 0.2 * 1"
    by (simp_all add: shortTrain_def twoGrid_oracle getTrackType_def)
  from updateTrain_terminus_reverses[OF wf_twoGrid h] wf_twoGrid
  show ?thesis
    by (simp add: shortTrain_def twoGrid_oracle getTrackType_def)
qed

section \<open>Train movement engine: carriage follow step\<close>

lemma length_updateCarriagePositions:
  "length (carriages (updateCarriagePositions train grid gridSize)) = length (carriages train)"
  by (simp add: updateCarriagePositions_def)

lemma nth_updateCarriagePositions:
  "i < length (carriages train) \<Longrightarrow>
   carriages (updateCarriagePositions train grid gridSize) ! i =
     updateCarriage train i (carriages train ! i)"
  by (simp add: updateCarriagePositions_def nth_enumerate_eq)

lemma car_progress_updateCarriage_follow:
  "0 < i \<Longrightarrow>
   0 \<le> car_progress (updateCarriage train i carriage) \<and>
   car_progress (updateCarriage train i carriage) \<le> 0.99"
  by (simp add: updateCarriage_def Let_def)

lemma car_progress_updateCarriage_locomotive:
  "car_progress (updateCarriage train 0 carriage) = progress train"
  by (simp add: updateCarriage_def)

text \<open>
  C5 (as stated, refuted).  A train of two carriages with lead progress 0.995: after the
  carriage-follow step the locomotive (index 0) stores 0.995, which is above 0.99.
\<close>

theorem locomotive_progress_above_clamp:
  "length (carriages (shortTrain 0.995)) = 2 \<and>
   0 \<le> progress (shortTrain 0.995) \<and> progress (shortTrain 0.995) < 1 \<and>
   car_progress (carriages (updateCarriagePositions (shortTrain 0.995) [] 0) ! 0) = 0.995 \<and>
   \<not> car_progress (carriages (updateCarriagePositions (shortTrain 0.995) [] 0) ! 0) \<le> 0.99"
  by (simp add: updateCarriagePositions_def shortTrain_def updateCarriage_def)

text \<open>
  C5 (amended).  For a train whose path history is not empty, after the carriage-follow
  step the number of carriages is unchanged, every
  carriage at an index \<open>i \<ge> 1\<close> stores a progress within \<open>[0, 0.99]\<close>, and the locomotive at
  index 0 stores the train's lead progress as it is.  This holds for every carriage count,
  so for trains of 2 to 10 carriages.
\<close>

theorem updateCarriagePositions_progress_clamped:
  assumes "path train \<noteq> []"
    and "1 \<le> i" and "i < length (carriages train)"
  shows "length (carriages (updateCarriagePositions train grid gridSize)) = length (carriages train) \<and>
         0 \<le> car_progress (carriages (updateCarriagePositions train grid gridSize) ! i) \<and>
         car_progress (carriages (updateCarriagePositions train grid gridSize) ! i) \<le> 0.99 \<and>
         car_progress (carriages (updateCarriagePositions train grid gridSize) ! 0) = progress train"
proof -
  have pos: "0 < i" using assms(2) by simp
  have ne: "0 < length (carriages train)" using assms(3) by (cases "carriages train") simp_all
  have follow: "0 \<le> car_progress (updateCarriage train i (carriages train ! i)) \<and>
                car_progress (updateCarriage train i (carriages train ! i)) \<le> 0.99"
    using pos by (rule car_progress_updateCarriage_follow)
  show ?thesis
    using follow
    by (simp only: length_updateCarriagePositions nth_updateCarriagePositions[OF assms(3)]
        nth_updateCarriagePositions[OF ne] car_progress_updateCarriage_locomotive simp_thms)
qed

theorem updateCarriagePositions_progress_clamped_witness:
  "path (shortTrain 0.995) \<noteq> [] \<and> (1::nat) < length (carriages (shortTrain 0.995)) \<and>
   0 \<le> car_progress (carriages (updateCarriagePositions (shortTrain 0.995) [] 0) ! 1) \<and>
   car_progress (carriages (updateCarriagePositions (shortTrain 0.995) [] 0) ! 1) \<le> 0.99 \<and>
   car_progress (carriages (updateCarriagePositions (shortTrain 0.995) [] 0) ! 1) = 0.715"
proof -
  have p: "path (shortTrain 0.995) \<noteq> []" and l: "(1::nat) < length (carriages (shortTrain 0.995))"
    by (simp_all add: shortTrain_def)
  have o: "(1::nat) \<le> 1" by simp
  have v: "car_progress (carriages (updateCarriagePositions (shortTrain 0.995) [] 0) ! 1) = 0.715"
    by (simp add: updateCarriagePositions_def shortTrain_def updateCarriage_def
        walkBack.simps CARRIAGE_SPACING_def Let_def)
  from updateCarriagePositions_progress_clamped[OF p o l, of "[]" 0] p l v show ?thesis by simp
qed

section \<open>Train lifecycle manager: the minimum network size\<close>

lemma set_gridCoords: "set (gridCoords gridSize) = cells gridSize"
  by (auto simp: gridCoords_def cells_def)

lemma distinct_gridCoords: "distinct (gridCoords gridSize)"
  unfolding gridCoords_def
  by (rule distinct_concat) (auto simp: distinct_map inj_on_def)

lemma isRailTile_in_cells:
  "isRailTile grid gridSize x y \<Longrightarrow> (x, y) \<in> cells gridSize"
  by (auto simp: isRailTile_def cells_def split: if_splits)

lemma countRailTiles_eq_card:
  "countRailTiles grid gridSize = int (card {(x, y). isRailTile grid gridSize x y})"
proof -
  let ?P = "\<lambda>c. let tile = tileAt grid (fst c) (snd c)
                 in building_type tile = Rail \<or>
                    (building_type tile = Road \<and> hasRailOverlay tile = True)"
  have eq: "{(x, y). isRailTile grid gridSize x y} = set (filter ?P (gridCoords gridSize))"
    by (auto simp: set_gridCoords isRailTile_def cells_def Let_def split: if_splits)
  have "distinct (filter ?P (gridCoords gridSize))"
    by (rule distinct_filter[OF distinct_gridCoords])
  then have "card (set (filter ?P (gridCoords gridSize))) = length (filter ?P (gridCoords gridSize))"
    by (rule distinct_card)
  then show ?thesis unfolding eq countRailTiles_def by (simp only:)
qed

text \<open>
  C7.  On a square grid of the given size, \<open>spawnTrain\<close> returns \<^verbatim>\<open>null\<close> whenever fewer than
  10 cells satisfy \<open>isRailTile\<close> (a rail tile, or a road tile with rail overlay), and so
  whenever no cell does; the train id counter and the random source are left as they were
  (no train is allocated, no random number is drawn).
\<close>

theorem spawnTrain_refuses_small_network:
  assumes "wf_grid grid gridSize"
  shows "(card {(x, y). isRailTile grid gridSize x y} < 10 \<longrightarrow>
            spawnTrain grid gridSize trainIdRef rand k = (None, trainIdRef, k)) \<and>
         ((\<forall>x y. \<not> isRailTile grid gridSize x y) \<longrightarrow>
            spawnTrain grid gridSize trainIdRef rand k = (None, trainIdRef, k))"
proof -
  have small: "spawnTrain grid gridSize trainIdRef rand k = (None, trainIdRef, k)"
    if "card {(x, y). isRailTile grid gridSize x y} < 10"
    using that
    by (simp add: spawnTrain_def Let_def countRailTiles_eq_card MIN_RAIL_TILES_FOR_TRAINS_def)
  have "card {(x, y). isRailTile grid gridSize x y} < 10"
    if "\<forall>x y. \<not> isRailTile grid gridSize x y"
    using that by simp
  with small show ?thesis by blast
qed

theorem spawnTrain_refuses_small_network_witness:
  "wf_grid twoGrid 2 \<and> card {(x, y). isRailTile twoGrid 2 x y} = 2 \<and>
   spawnTrain twoGrid 2 7 (\<lambda>n. 1 / 2) 0 = (None, 7, 0) \<and>
   wf_grid grassGrid 3 \<and> (\<forall>x y. \<not> isRailTile grassGrid 3 x y) \<and>
   spawnTrain grassGrid 3 7 (\<lambda>n. 1 / 2) 0 = (None, 7, 0)"
proof -
  have "countRailTiles twoGrid 2 = 2"
    by code_simp
  then have c: "card {(x, y). isRailTile twoGrid 2 x y} = 2"
    unfolding countRailTiles_eq_card by simp
  have wg: "wf_grid grassGrid 3" by (simp add: wf_grid_def grassGrid_def list_all_iff)
  have none: "\<forall>x y. \<not> isRailTile grassGrid 3 x y"
  proof (intro allI)
    fix x y :: int
    show "\<not> isRailTile grassGrid 3 x y"
    proof (cases "0 \<le> x \<and> x < 3 \<and> 0 \<le> y \<and> y < 3")
      case True
      then have "nat x < 3" "nat y < 3" by linarith+
      then show ?thesis
        by (simp add: isRailTile_def grassGrid_def tileAt_def tile_def Let_def)
    next
      case False
      then show ?thesis by (auto simp: isRailTile_def)
    qed
  qed
  from spawnTrain_refuses_small_network[OF wf_twoGrid, of 7 "\<lambda>n. 1 / 2" 0]
    spawnTrain_refuses_small_network[OF wg, of 7 "\<lambda>n. 1 / 2" 0]
    wf_twoGrid c wg none
  show ?thesis by simp
qed

section \<open>Rail pathfinder: shortest paths\<close>

lemma railPath_nonempty: "railPath grid gridSize p \<Longrightarrow> p \<noteq> []"
  by (cases p) simp_all

lemma railPath_snoc:
  "railPath grid gridSize p \<Longrightarrow> adjacent (last p) w \<Longrightarrow> railOrStation grid gridSize w \<Longrightarrow>
   railPath grid gridSize (p @ [w])"
  by (induction grid gridSize p rule: railPath.induct) simp_all

lemma railPath_butlast:
  "railPath grid gridSize (p @ [w]) \<Longrightarrow> p \<noteq> [] \<Longrightarrow>
   railPath grid gridSize p \<and> adjacent (last p) w \<and> railOrStation grid gridSize w"
proof (induction grid gridSize p rule: railPath.induct)
  case (3 grid gridSize a b rest)
  then show ?case by simp
qed simp_all

lemma railPath_closed:
  assumes closed: "\<And>u w. u \<in> V \<Longrightarrow> adjacent u w \<Longrightarrow> railOrStation grid gridSize w \<Longrightarrow> w \<in> V"
  shows "railPath grid gridSize p \<Longrightarrow> hd p \<in> V \<Longrightarrow> last p \<in> V"
proof (induction p)
  case Nil
  then show ?case by simp
next
  case (Cons a p)
  show ?case
  proof (cases p)
    case Nil
    with Cons.prems show ?thesis by simp
  next
    case (Cons b rest)
    from Cons.prems Cons have a: "a \<in> V" "adjacent a b" "railOrStation grid gridSize b"
      and rp: "railPath grid gridSize p" by simp_all
    from a have "b \<in> V" by (rule closed)
    with Cons.IH rp Cons show ?thesis by simp
  qed
qed

lemma visitNeighbor_step:
  "visitNeighbor grid gridSize cur (Q, V) d =
     (if (qx cur + fst d, qy cur + snd d) \<notin> V \<and>
         railOrStation grid gridSize (qx cur + fst d, qy cur + snd d)
      then (Q @ [\<lparr>qx = qx cur + fst d, qy = qy cur + snd d,
                  qpath = qpath cur @ [(qx cur + fst d, qy cur + snd d)]\<rparr>],
            insert (qx cur + fst d, qy cur + snd d) V)
      else (Q, V))"
  by (auto simp: visitNeighbor_def Let_def railOrStation_def isRailTile_def isRailStationTile_def)

lemma foldl_visitNeighbor_props:
  assumes "set ds \<subseteq> set directions"
  shows "\<exists>news. foldl (visitNeighbor grid gridSize cur) (Q, V) ds = (Q @ news, V \<union> cellOf ` set news) \<and>
           (\<forall>e\<in>set news. adjacent (cellOf cur) (cellOf e) \<and> railOrStation grid gridSize (cellOf e) \<and>
                          cellOf e \<notin> V \<and> qpath e = qpath cur @ [cellOf e]) \<and>
           (\<forall>d\<in>set ds. railOrStation grid gridSize (qx cur + fst d, qy cur + snd d) \<longrightarrow>
                          (qx cur + fst d, qy cur + snd d) \<in> V \<union> cellOf ` set news)"
  using assms
proof (induction ds arbitrary: Q V)
  case Nil
  show ?case by (rule exI[of _ "[]"]) simp
next
  case (Cons d ds)
  let ?w = "(qx cur + fst d, qy cur + snd d)"
  let ?e = "\<lparr>qx = qx cur + fst d, qy = qy cur + snd d, qpath = qpath cur @ [?w]\<rparr>"
  have sub: "set ds \<subseteq> set directions" and d: "d \<in> set directions" using Cons.prems by simp_all
  have adj: "adjacent (cellOf cur) ?w" using d by (simp add: adjacent_def cellOf_def)
  show ?case
  proof (cases "?w \<notin> V \<and> railOrStation grid gridSize ?w")
    case True
    from Cons.IH[OF sub, of "Q @ [?e]" "insert ?w V"]
    obtain news where
      f: "foldl (visitNeighbor grid gridSize cur) (Q @ [?e], insert ?w V) ds =
            ((Q @ [?e]) @ news, insert ?w V \<union> cellOf ` set news)"
      and p: "\<forall>e\<in>set news. adjacent (cellOf cur) (cellOf e) \<and> railOrStation grid gridSize (cellOf e) \<and>
                          cellOf e \<notin> insert ?w V \<and> qpath e = qpath cur @ [cellOf e]"
      and c: "\<forall>d\<in>set ds. railOrStation grid gridSize (qx cur + fst d, qy cur + snd d) \<longrightarrow>
                          (qx cur + fst d, qy cur + snd d) \<in> insert ?w V \<union> cellOf ` set news"
      by blast
    have ce: "cellOf ?e = ?w" by (simp add: cellOf_def)
    show ?thesis
    proof (rule exI[of _ "?e # news"], intro conjI)
      show "foldl (visitNeighbor grid gridSize cur) (Q, V) (d # ds) =
              (Q @ ?e # news, V \<union> cellOf ` set (?e # news))"
        using True f by (simp add: visitNeighbor_step ce)
      show "\<forall>e\<in>set (?e # news). adjacent (cellOf cur) (cellOf e) \<and>
              railOrStation grid gridSize (cellOf e) \<and> cellOf e \<notin> V \<and> qpath e = qpath cur @ [cellOf e]"
        using True adj p by (simp add: ce)
      show "\<forall>d\<in>set (d # ds). railOrStation grid gridSize (qx cur + fst d, qy cur + snd d) \<longrightarrow>
              (qx cur + fst d, qy cur + snd d) \<in> V \<union> cellOf ` set (?e # news)"
        using c by (simp add: ce)
    qed
  next
    case False
    from Cons.IH[OF sub, of Q V]
    obtain news where
      f: "foldl (visitNeighbor grid gridSize cur) (Q, V) ds = (Q @ news, V \<union> cellOf ` set news)"
      and p: "\<forall>e\<in>set news. adjacent (cellOf cur) (cellOf e) \<and> railOrStation grid gridSize (cellOf e) \<and>
                          cellOf e \<notin> V \<and> qpath e = qpath cur @ [cellOf e]"
      and c: "\<forall>d\<in>set ds. railOrStation grid gridSize (qx cur + fst d, qy cur + snd d) \<longrightarrow>
                          (qx cur + fst d, qy cur + snd d) \<in> V \<union> cellOf ` set news"
      by blast
    show ?thesis
    proof (rule exI[of _ news], intro conjI)
      show "foldl (visitNeighbor grid gridSize cur) (Q, V) (d # ds) = (Q @ news, V \<union> cellOf ` set news)"
        using False f by (auto simp: visitNeighbor_step)
      show "\<forall>e\<in>set news. adjacent (cellOf cur) (cellOf e) \<and>
              railOrStation grid gridSize (cellOf e) \<and> cellOf e \<notin> V \<and> qpath e = qpath cur @ [cellOf e]"
        using p .
      show "\<forall>d\<in>set (d # ds). railOrStation grid gridSize (qx cur + fst d, qy cur + snd d) \<longrightarrow>
              (qx cur + fst d, qy cur + snd d) \<in> V \<union> cellOf ` set news"
        using c False by auto
    qed
  qed
qed

lemma adjacent_direction:
  "adjacent c w \<Longrightarrow> \<exists>d\<in>set directions. w = (fst c + fst d, snd c + snd d)"
  by (cases c; cases w) (auto simp: adjacent_def directions_def)

lemma visitNeighbors_props:
  "\<exists>news. visitNeighbors grid gridSize cur (Q, V) = (Q @ news, V \<union> cellOf ` set news) \<and>
           (\<forall>e\<in>set news. adjacent (cellOf cur) (cellOf e) \<and> railOrStation grid gridSize (cellOf e) \<and>
                          cellOf e \<notin> V \<and> qpath e = qpath cur @ [cellOf e]) \<and>
           (\<forall>w. adjacent (cellOf cur) w \<and> railOrStation grid gridSize w \<longrightarrow>
                          w \<in> V \<union> cellOf ` set news)"
proof -
  from foldl_visitNeighbor_props[of directions grid gridSize cur Q V]
  obtain news where
    f: "foldl (visitNeighbor grid gridSize cur) (Q, V) directions = (Q @ news, V \<union> cellOf ` set news)"
    and p: "\<forall>e\<in>set news. adjacent (cellOf cur) (cellOf e) \<and> railOrStation grid gridSize (cellOf e) \<and>
                          cellOf e \<notin> V \<and> qpath e = qpath cur @ [cellOf e]"
    and c: "\<forall>d\<in>set directions. railOrStation grid gridSize (qx cur + fst d, qy cur + snd d) \<longrightarrow>
                          (qx cur + fst d, qy cur + snd d) \<in> V \<union> cellOf ` set news"
    by blast
  have "w \<in> V \<union> cellOf ` set news" if "adjacent (cellOf cur) w" "railOrStation grid gridSize w" for w
  proof -
    from adjacent_direction[OF that(1)] obtain d where
      "d \<in> set directions" "w = (qx cur + fst d, qy cur + snd d)"
      by (auto simp: cellOf_def)
    with c that(2) show ?thesis by blast
  qed
  with f p show ?thesis unfolding visitNeighbors_def by blast
qed

lemma sorted_map_hd_le:
  "sorted (map f xs) \<Longrightarrow> e \<in> set xs \<Longrightarrow> f (hd xs) \<le> (f e :: nat)"
  by (cases xs) auto

lemma bfsInv_initial:
  "bfsInv grid gridSize (sx, sy) t [\<lparr>qx = sx, qy = sy, qpath = [(sx, sy)]\<rparr>] {(sx, sy)}"
proof -
  have len: "1 \<le> length p" if "railPath grid gridSize p" for p
    using railPath_nonempty[OF that] by (cases p) simp_all
  have far: "1 < length p" if "pathFromTo grid gridSize (sx, sy) w p" "w \<noteq> (sx, sy)" for w p
  proof (cases p)
    case Nil
    with that show ?thesis by (simp add: pathFromTo_def)
  next
    case (Cons a rest)
    with that show ?thesis by (cases rest) (auto simp: pathFromTo_def)
  qed
  let ?e = "\<lparr>qx = sx, qy = sy, qpath = [(sx, sy)]\<rparr>"
  have c: "cellOf ?e = (sx, sy)" by (simp add: cellOf_def)
  have p0: "pathFromTo grid gridSize (sx, sy) (sx, sy) [(sx, sy)]"
    by (simp add: pathFromTo_def)
  have m0: "\<forall>p. pathFromTo grid gridSize (sx, sy) (sx, sy) p \<longrightarrow> length [(sx, sy)] \<le> length p"
    using len by (simp add: pathFromTo_def)
  have i1: "\<forall>e\<in>set [?e]. pathFromTo grid gridSize (sx, sy) (cellOf e) (qpath e) \<and>
              cellOf e \<in> {(sx, sy)} \<and>
              (\<forall>p. pathFromTo grid gridSize (sx, sy) (cellOf e) p \<longrightarrow> length (qpath e) \<le> length p)"
    using p0 m0 by (simp add: c)
  have i3: "\<forall>u\<in>{(sx, sy)}. u \<notin> cellOf ` set [?e] \<longrightarrow>
              u \<noteq> t \<and> (\<forall>w. adjacent u w \<and> railOrStation grid gridSize w \<longrightarrow> w \<in> {(sx, sy)})"
    by (simp add: c)
  have i6: "\<forall>w p. [?e] \<noteq> [] \<and> w \<notin> {(sx, sy)} \<and> pathFromTo grid gridSize (sx, sy) w p \<longrightarrow>
              length (qpath (hd [?e])) < length p"
  proof (intro allI impI)
    fix w p
    assume "[?e] \<noteq> [] \<and> w \<notin> {(sx, sy)} \<and> pathFromTo grid gridSize (sx, sy) w p"
    then have "pathFromTo grid gridSize (sx, sy) w p" "w \<noteq> (sx, sy)" by simp_all
    then have "1 < length p" by (rule far)
    then show "length (qpath (hd [?e])) < length p" by simp
  qed
  have i4: "sorted (map (\<lambda>e. length (qpath e)) [?e])" by simp
  have i5: "\<forall>e\<in>set [?e]. length (qpath e) \<le> length (qpath (hd [?e])) + 1" by simp
  have i2: "(sx, sy) \<in> {(sx, sy)}" by simp
  show ?thesis
    unfolding bfsInv_def using i1 i2 i3 i4 i5 i6 by blast
qed

lemma bfsInv_step:
  assumes inv: "bfsInv grid gridSize s t (cur # rest) V" and nt: "cellOf cur \<noteq> t"
  shows "bfsInv grid gridSize s t (fst (visitNeighbors grid gridSize cur (rest, V)))
           (snd (visitNeighbors grid gridSize cur (rest, V)))"
proof -
  define len where "len = (\<lambda>e::QueueEntry. length (qpath e))"
  define L where "L = length (qpath cur)"
  from visitNeighbors_props[of grid gridSize cur rest V] obtain news where
    vn: "visitNeighbors grid gridSize cur (rest, V) = (rest @ news, V \<union> cellOf ` set news)"
    and nw: "\<And>e. e \<in> set news \<Longrightarrow> adjacent (cellOf cur) (cellOf e) \<and>
               railOrStation grid gridSize (cellOf e) \<and> cellOf e \<notin> V \<and>
               qpath e = qpath cur @ [cellOf e]"
    and nb: "\<And>w. adjacent (cellOf cur) w \<Longrightarrow> railOrStation grid gridSize w \<Longrightarrow>
               w \<in> V \<union> cellOf ` set news"
    by blast
  let ?Q = "rest @ news" and ?V = "V \<union> cellOf ` set news"
  from inv have
    R1: "\<forall>e\<in>set (cur # rest). pathFromTo grid gridSize s (cellOf e) (qpath e) \<and> cellOf e \<in> V \<and>
           (\<forall>p. pathFromTo grid gridSize s (cellOf e) p \<longrightarrow> length (qpath e) \<le> length p)"
    and A2: "s \<in> V"
    and R3: "\<forall>u\<in>V. u \<notin> cellOf ` set (cur # rest) \<longrightarrow>
           u \<noteq> t \<and> (\<forall>w. adjacent u w \<and> railOrStation grid gridSize w \<longrightarrow> w \<in> V)"
    and R4: "sorted (map (\<lambda>e. length (qpath e)) (cur # rest))"
    and R5: "\<forall>e\<in>set (cur # rest). length (qpath e) \<le> length (qpath (hd (cur # rest))) + 1"
    and R6: "\<forall>w p. cur # rest \<noteq> [] \<and> w \<notin> V \<and> pathFromTo grid gridSize s w p \<longrightarrow>
           length (qpath (hd (cur # rest))) < length p"
    unfolding bfsInv_def by blast+
  have A1: "pathFromTo grid gridSize s (cellOf e) (qpath e) \<and> cellOf e \<in> V \<and>
        (\<forall>p. pathFromTo grid gridSize s (cellOf e) p \<longrightarrow> len e \<le> length p)"
    if "e \<in> set (cur # rest)" for e
    using R1 that unfolding len_def by blast
  have A3: "u \<noteq> t \<and> (\<forall>w. adjacent u w \<and> railOrStation grid gridSize w \<longrightarrow> w \<in> V)"
    if "u \<in> V" "u \<notin> cellOf ` set (cur # rest)" for u
    using R3 that by blast
  have A4: "sorted (map len (cur # rest))"
    using R4 unfolding len_def .
  have A5: "len e \<le> L + 1" if "e \<in> set (cur # rest)" for e
    using R5 that unfolding len_def L_def by (simp only: list.sel)
  have A6: "L < length p" if "w \<notin> V" "pathFromTo grid gridSize s w p" for w p
  proof -
    have "cur # rest \<noteq> []" by simp
    with R6 that have "length (qpath (hd (cur # rest))) < length p" by blast
    then show ?thesis unfolding L_def by (simp only: list.sel)
  qed
  have curpath: "pathFromTo grid gridSize s (cellOf cur) (qpath cur)"
    using A1[of cur] by simp
  then have rp: "railPath grid gridSize (qpath cur)" and hdc: "hd (qpath cur) = s"
    and lastc: "last (qpath cur) = cellOf cur"
    by (simp_all add: pathFromTo_def)
  have ne: "qpath cur \<noteq> []" using rp by (rule railPath_nonempty)
  then have Lpos: "1 \<le> L" unfolding L_def by (cases "qpath cur") simp_all
  have restlo: "L \<le> len e" if "e \<in> set rest" for e
    using A4 that by (auto simp: L_def len_def)
  have resthi: "len e \<le> L + 1" if "e \<in> set rest" for e
    using A5[of e] that by simp
  have newlen: "len e = L + 1" if "e \<in> set news" for e
    using nw[OF that] by (simp add: len_def L_def)
  have range: "L \<le> len e \<and> len e \<le> L + 1" if "e \<in> set ?Q" for e
    using that restlo resthi newlen by auto
  have srt: "sorted (map len ?Q)"
  proof -
    have "sorted (map len rest)" using A4 by simp
    moreover have "sorted (map len news)"
    proof -
      have "\<forall>x\<in>set (map len news). x = L + 1" using newlen by auto
      then have "map len news = replicate (length (map len news)) (L + 1)"
        by (rule replicate_length_same[symmetric])
      then show ?thesis by (metis sorted_replicate)
    qed
    moreover have "\<forall>x\<in>set (map len rest). \<forall>y\<in>set (map len news). x \<le> y"
      using resthi newlen by auto
    ultimately show ?thesis by (simp add: sorted_append)
  qed
  have B1: "pathFromTo grid gridSize s (cellOf e) (qpath e) \<and> cellOf e \<in> ?V \<and>
            (\<forall>p. pathFromTo grid gridSize s (cellOf e) p \<longrightarrow> len e \<le> length p)"
    if "e \<in> set ?Q" for e
  proof (cases "e \<in> set rest")
    case True
    then show ?thesis using A1[of e] by simp
  next
    case False
    with that have en: "e \<in> set news" by simp
    from nw[OF en] have adj: "adjacent (cellOf cur) (cellOf e)"
      and ros: "railOrStation grid gridSize (cellOf e)" and fresh: "cellOf e \<notin> V"
      and qp: "qpath e = qpath cur @ [cellOf e]" by simp_all
    have "railPath grid gridSize (qpath cur @ [cellOf e])"
      using rp adj ros by (intro railPath_snoc) (simp_all add: lastc)
    then have "pathFromTo grid gridSize s (cellOf e) (qpath e)"
      using ne hdc by (simp add: pathFromTo_def qp)
    moreover have "cellOf e \<in> ?V" using en by simp
    moreover have "len e \<le> length p" if "pathFromTo grid gridSize s (cellOf e) p" for p
      using A6[OF fresh that] newlen[OF en] by simp
    ultimately show ?thesis by blast
  qed
  have B3: "u \<noteq> t \<and> (\<forall>w. adjacent u w \<and> railOrStation grid gridSize w \<longrightarrow> w \<in> ?V)"
    if "u \<in> ?V" "u \<notin> cellOf ` set ?Q" for u
  proof (cases "u = cellOf cur")
    case True
    then show ?thesis using nt nb by blast
  next
    case False
    from that have "u \<in> V" and "u \<notin> cellOf ` set rest" by auto
    with False have "u \<notin> cellOf ` set (cur # rest)" by auto
    from A3[OF \<open>u \<in> V\<close> this] show ?thesis by blast
  qed
  have B5: "len e \<le> len (hd ?Q) + 1" if "e \<in> set ?Q" for e
  proof -
    from that have "?Q \<noteq> []" by auto
    then have "hd ?Q \<in> set ?Q" by (rule hd_in_set)
    from range[OF this] range[OF that] show ?thesis by simp
  qed
  have B6: "len (hd ?Q) < length p"
    if qne: "?Q \<noteq> []" and wV: "w \<notin> ?V" and pf: "pathFromTo grid gridSize s w p" for w p
  proof (rule ccontr)
    assume contra: "\<not> len (hd ?Q) < length p"
    from wV have wV0: "w \<notin> V" by simp
    from A6[OF wV0 pf] have Lp: "L < length p" .
    from qne have hdin: "hd ?Q \<in> set ?Q" by (rule hd_in_set)
    from range[OF hdin] contra Lp have plen: "length p = L + 1" and hlen: "len (hd ?Q) = L + 1"
      by simp_all
    from pf have rpp: "railPath grid gridSize p" and hdp: "hd p = s" and lastp: "last p = w"
      by (simp_all add: pathFromTo_def)
    define p' where "p' = butlast p"
    have pne: "p \<noteq> []" using rpp by (rule railPath_nonempty)
    then have psplit: "p = p' @ [w]"
      using lastp append_butlast_last_id[of p] unfolding p'_def by simp
    have p'len: "length p' = L" using plen by (simp add: p'_def)
    then have p'ne: "p' \<noteq> []" using Lpos by (cases p') simp_all
    from railPath_butlast[of grid gridSize p' w] rpp psplit p'ne
    have rp': "railPath grid gridSize p'" and adj: "adjacent (last p') w"
      and ros: "railOrStation grid gridSize w" by simp_all
    define u where "u = last p'"
    have hdp': "hd p' = s" using hdp psplit p'ne by (cases p') simp_all
    have pf': "pathFromTo grid gridSize s u p'"
      using rp' hdp' by (simp add: pathFromTo_def u_def)
    have uV: "u \<in> V"
    proof (rule ccontr)
      assume "u \<notin> V"
      from A6[OF this pf'] p'len show False by simp
    qed
    show False
    proof (cases "u \<in> cellOf ` set (cur # rest)")
      case False
      from A3[OF uV False] adj ros have "w \<in> V" unfolding u_def by blast
      with wV0 show False by simp
    next
      case True
      then consider "u = cellOf cur" | e where "e \<in> set rest" "u = cellOf e" by auto
      then show False
      proof cases
        case 1
        with nb[of w] adj ros have "w \<in> ?V" unfolding u_def by simp
        with wV show False by simp
      next
        case 2
        from A1[of e] 2 pf' have "len e \<le> length p'" by simp
        moreover from sorted_map_hd_le[OF srt, of e] 2(1) have "len (hd ?Q) \<le> len e" by simp
        ultimately show False using hlen p'len by simp
      qed
    qed
  qed
  show ?thesis
    unfolding vn fst_conv snd_conv bfsInv_def
    using B1 A2 B3 srt B5 B6 unfolding len_def by blast
qed

lemma bfsLoop_correct:
  "bfsInv grid gridSize s (endX, endY) Q V \<Longrightarrow>
   (case bfsLoop grid gridSize endX endY Q V of
      None \<Rightarrow> (\<forall>p. \<not> pathFromTo grid gridSize s (endX, endY) p)
    | Some p \<Rightarrow> pathFromTo grid gridSize s (endX, endY) p \<and>
               (\<forall>q. pathFromTo grid gridSize s (endX, endY) q \<longrightarrow> length p \<le> length q))"
proof (induction grid gridSize endX endY Q V rule: bfsLoop.induct)
  case (1 grid gridSize endX endY visited)
  from "1.prems" have sV: "s \<in> visited"
    and processed: "\<forall>u\<in>visited. u \<notin> cellOf ` set ([] :: QueueEntry list) \<longrightarrow>
        u \<noteq> (endX, endY) \<and>
        (\<forall>w. adjacent u w \<and> railOrStation grid gridSize w \<longrightarrow> w \<in> visited)"
    unfolding bfsInv_def by blast+
  have processed': "\<forall>u\<in>visited. u \<noteq> (endX, endY) \<and>
        (\<forall>w. adjacent u w \<and> railOrStation grid gridSize w \<longrightarrow> w \<in> visited)"
    using processed by (simp del: split_paired_All)
  have closed: "w \<in> visited" if "u \<in> visited" "adjacent u w" "railOrStation grid gridSize w" for u w
    using processed' that by blast
  have notEnd: "(endX, endY) \<notin> visited" using processed' by blast
  have "\<not> pathFromTo grid gridSize s (endX, endY) p" for p
  proof
    assume "pathFromTo grid gridSize s (endX, endY) p"
    then have "railPath grid gridSize p" "hd p \<in> visited" "last p = (endX, endY)"
      using sV by (simp_all add: pathFromTo_def)
    with railPath_closed[of visited grid gridSize p, OF closed] have "(endX, endY) \<in> visited"
      by simp
    with notEnd show False by simp
  qed
  then show ?case by simp
next
  case (2 grid gridSize endX endY current queue visited)
  show ?case
  proof (cases "qx current = endX \<and> qy current = endY")
    case True
    then have c: "cellOf current = (endX, endY)" by (simp add: cellOf_def)
    from "2.prems" have
      "pathFromTo grid gridSize s (cellOf current) (qpath current) \<and>
       (\<forall>p. pathFromTo grid gridSize s (cellOf current) p \<longrightarrow> length (qpath current) \<le> length p)"
      unfolding bfsInv_def by simp
    then show ?thesis using True by (simp add: c)
  next
    case False
    then have nt: "cellOf current \<noteq> (endX, endY)" by (auto simp: cellOf_def)
    from bfsInv_step[OF "2.prems" nt]
    have inv': "bfsInv grid gridSize s (endX, endY)
            (fst (visitNeighbors grid gridSize current (queue, visited)))
            (snd (visitNeighbors grid gridSize current (queue, visited)))" .
    have unfold: "bfsLoop grid gridSize endX endY (current # queue) visited =
                    bfsLoop grid gridSize endX endY
                      (fst (visitNeighbors grid gridSize current (queue, visited)))
                      (snd (visitNeighbors grid gridSize current (queue, visited)))"
      using False by auto
    from "2.IH"[OF False inv'] show ?thesis unfolding unfold .
  qed
qed


lemma findPathOnRails_line:
  assumes line: "\<And>x y. railOrStation grid gridSize (x, y) = (x = 0 \<and> 0 \<le> y \<and> y \<le> 4)"
  shows "findPathOnRails grid gridSize 0 0 0 4 = Some [(0, 0), (0, 1), (0, 2), (0, 3), (0, 4)]"
  unfolding findPathOnRails_def
  by (simp add: visitNeighbors_def directions_def visitNeighbor_step line)

lemma wf_lineGrid: "wf_grid lineGrid 5"
  by (simp add: wf_grid_def lineGrid_def list_all_iff)

lemma railOrStation_lineGrid:
  "railOrStation lineGrid 5 (x, y) = (x = 0 \<and> 0 \<le> y \<and> y \<le> 4)"
proof (cases "0 \<le> x \<and> x < 5 \<and> 0 \<le> y \<and> y < 5")
  case False
  then show ?thesis
    by (auto simp: railOrStation_def isRailTile_def isRailStationTile_def)
next
  case True
  then have ny: "nat y < 5" by linarith
  from True consider "x = 0" | "x = 1" | "x = 2" | "x = 3" | "x = 4" by linarith
  then show ?thesis
    using True ny
    by cases
      (simp_all add: railOrStation_def isRailTile_def isRailStationTile_def tileAt_def
        lineGrid_def tile_def Let_def)
qed

lemma lexLt_trans: "lexLt xs ys \<Longrightarrow> lexLt ys zs \<Longrightarrow> lexLt xs zs"
proof (induction xs ys arbitrary: zs rule: lexLt.induct)
  case (1 x xs y ys)
  then show ?case by (cases zs) auto
qed simp_all

lemma lexLt_append: "lexLt xs ys \<Longrightarrow> lexLt (xs @ as) (ys @ bs)"
  by (induction xs ys rule: lexLt.induct) auto

lemma lexLt_snoc: "lexLt (xs @ [a]) (xs @ [b]) = (a < b)"
  by (induction xs) simp_all

lemma route_snoc:
  "p \<noteq> [] \<Longrightarrow>
   route (p @ [w]) = route p @ [dirRank (fst w - fst (last p), snd w - snd (last p))]"
  by (induction p rule: route.induct) simp_all

lemma directions_ranked: "sorted_wrt (\<lambda>a b. dirRank a < dirRank b) directions"
  by (simp add: directions_def dirRank_def)

lemma foldl_visitNeighbor_order:
  assumes "sorted_wrt (\<lambda>a b. dirRank a < dirRank b) ds"
  shows "\<exists>ds'. set ds' \<subseteq> set ds \<and> sorted_wrt (\<lambda>a b. dirRank a < dirRank b) ds' \<and>
           fst (foldl (visitNeighbor grid gridSize cur) (Q, V) ds) =
             Q @ map (\<lambda>d. \<lparr>qx = qx cur + fst d, qy = qy cur + snd d,
                            qpath = qpath cur @ [(qx cur + fst d, qy cur + snd d)]\<rparr>) ds'"
  using assms
proof (induction ds arbitrary: Q V)
  case Nil
  show ?case by (rule exI[of _ "[]"]) simp
next
  case (Cons d ds)
  let ?mk = "\<lambda>d. \<lparr>qx = qx cur + fst d, qy = qy cur + snd d,
                    qpath = qpath cur @ [(qx cur + fst d, qy cur + snd d)]\<rparr>"
  from Cons.prems have srt: "sorted_wrt (\<lambda>a b. dirRank a < dirRank b) ds"
    and first: "\<forall>x\<in>set ds. dirRank d < dirRank x" by simp_all
  show ?case
  proof (cases "(qx cur + fst d, qy cur + snd d) \<notin> V \<and>
                railOrStation grid gridSize (qx cur + fst d, qy cur + snd d)")
    case True
    from Cons.IH[OF srt, of "Q @ [?mk d]" "insert (qx cur + fst d, qy cur + snd d) V"]
    obtain ds' where sub: "set ds' \<subseteq> set ds"
      and s': "sorted_wrt (\<lambda>a b. dirRank a < dirRank b) ds'"
      and f: "fst (foldl (visitNeighbor grid gridSize cur)
                (Q @ [?mk d], insert (qx cur + fst d, qy cur + snd d) V) ds) =
              (Q @ [?mk d]) @ map ?mk ds'"
      by blast
    have "fst (foldl (visitNeighbor grid gridSize cur) (Q, V) (d # ds)) = Q @ map ?mk (d # ds')"
      using True f by (simp add: visitNeighbor_step)
    moreover have "sorted_wrt (\<lambda>a b. dirRank a < dirRank b) (d # ds')"
      using s' sub first by auto
    moreover have "set (d # ds') \<subseteq> set (d # ds)" using sub by auto
    ultimately show ?thesis by blast
  next
    case False
    from Cons.IH[OF srt, of Q V]
    obtain ds' where sub: "set ds' \<subseteq> set ds"
      and s': "sorted_wrt (\<lambda>a b. dirRank a < dirRank b) ds'"
      and f: "fst (foldl (visitNeighbor grid gridSize cur) (Q, V) ds) = Q @ map ?mk ds'"
      by blast
    have "fst (foldl (visitNeighbor grid gridSize cur) (Q, V) (d # ds)) = Q @ map ?mk ds'"
      using False f by (auto simp: visitNeighbor_step)
    moreover have "set ds' \<subseteq> set (d # ds)" using sub by auto
    ultimately show ?thesis using s' by blast
  qed
qed

lemma bfsOrd_initial:
  "bfsOrd grid gridSize (sx, sy) [\<lparr>qx = sx, qy = sy, qpath = [(sx, sy)]\<rparr>]"
proof -
  let ?e = "\<lparr>qx = sx, qy = sy, qpath = [(sx, sy)]\<rparr>"
  have one: "p = [(sx, sy)]"
    if "pathFromTo grid gridSize (sx, sy) (cellOf ?e) p" "length p = length (qpath ?e)" for p
  proof (cases p)
    case Nil
    with that show ?thesis by simp
  next
    case (Cons a rest)
    with that show ?thesis by (simp add: pathFromTo_def)
  qed
  have k2: "\<forall>e\<in>set [?e]. \<forall>p. pathFromTo grid gridSize (sx, sy) (cellOf e) p \<and>
              length p = length (qpath e) \<longrightarrow> p = qpath e \<or> lexLt (route (qpath e)) (route p)"
    using one by simp
  show ?thesis unfolding bfsOrd_def using k2 by simp
qed

lemma bfsOrd_step:
  assumes inv: "bfsInv grid gridSize s t (cur # rest) V"
    and ord: "bfsOrd grid gridSize s (cur # rest)"
  shows "bfsOrd grid gridSize s (fst (visitNeighbors grid gridSize cur (rest, V)))"
proof -
  define len where "len = (\<lambda>e::QueueEntry. length (qpath e))"
  define rt where "rt = (\<lambda>e::QueueEntry. route (qpath e))"
  define L where "L = length (qpath cur)"
  define R where "R = (\<lambda>a b::QueueEntry. len a = len b \<longrightarrow> lexLt (rt a) (rt b))"
  let ?mk = "\<lambda>d. \<lparr>qx = qx cur + fst d, qy = qy cur + snd d,
                    qpath = qpath cur @ [(qx cur + fst d, qy cur + snd d)]\<rparr>"
  \<comment> \<open>the expansion step\<close>
  from visitNeighbors_props[of grid gridSize cur rest V] obtain news where
    vn: "visitNeighbors grid gridSize cur (rest, V) = (rest @ news, V \<union> cellOf ` set news)"
    and nw: "\<And>e. e \<in> set news \<Longrightarrow> adjacent (cellOf cur) (cellOf e) \<and>
               railOrStation grid gridSize (cellOf e) \<and> cellOf e \<notin> V \<and>
               qpath e = qpath cur @ [cellOf e]"
    and nb: "\<And>w. adjacent (cellOf cur) w \<Longrightarrow> railOrStation grid gridSize w \<Longrightarrow>
               w \<in> V \<union> cellOf ` set news"
    by blast
  from foldl_visitNeighbor_order[OF directions_ranked, of grid gridSize cur rest V]
  obtain ds' where dsrt: "sorted_wrt (\<lambda>a b. dirRank a < dirRank b) ds'"
    and f: "fst (visitNeighbors grid gridSize cur (rest, V)) = rest @ map ?mk ds'"
    unfolding visitNeighbors_def by blast
  have news: "news = map ?mk ds'" using f vn by simp
  let ?Q = "rest @ news"
  \<comment> \<open>what the invariants give for the old queue\<close>
  from inv have
    R1: "\<forall>e\<in>set (cur # rest). pathFromTo grid gridSize s (cellOf e) (qpath e) \<and> cellOf e \<in> V \<and>
           (\<forall>p. pathFromTo grid gridSize s (cellOf e) p \<longrightarrow> length (qpath e) \<le> length p)"
    and R3: "\<forall>u\<in>V. u \<notin> cellOf ` set (cur # rest) \<longrightarrow>
           u \<noteq> t \<and> (\<forall>w. adjacent u w \<and> railOrStation grid gridSize w \<longrightarrow> w \<in> V)"
    and R4: "sorted (map (\<lambda>e. length (qpath e)) (cur # rest))"
    and R5: "\<forall>e\<in>set (cur # rest). length (qpath e) \<le> length (qpath (hd (cur # rest))) + 1"
    and R6: "\<forall>w p. cur # rest \<noteq> [] \<and> w \<notin> V \<and> pathFromTo grid gridSize s w p \<longrightarrow>
           length (qpath (hd (cur # rest))) < length p"
    unfolding bfsInv_def by blast+
  from ord have
    K1: "sorted_wrt R (cur # rest)"
    and K2: "\<forall>e\<in>set (cur # rest). \<forall>p. pathFromTo grid gridSize s (cellOf e) p \<and>
           length p = length (qpath e) \<longrightarrow> p = qpath e \<or> lexLt (route (qpath e)) (route p)"
    and K4: "\<forall>e\<in>set (cur # rest). length (qpath e) = length (qpath (hd (cur # rest))) + 1 \<longrightarrow>
           lexLt (route (butlast (qpath e))) (route (qpath (hd (cur # rest))))"
    unfolding bfsOrd_def R_def len_def rt_def by blast+
  have A1: "pathFromTo grid gridSize s (cellOf e) (qpath e) \<and>
        (\<forall>p. pathFromTo grid gridSize s (cellOf e) p \<longrightarrow> len e \<le> length p)"
    if "e \<in> set (cur # rest)" for e
    using R1 that unfolding len_def by blast
  have A3: "\<forall>w. adjacent u w \<and> railOrStation grid gridSize w \<longrightarrow> w \<in> V"
    if "u \<in> V" "u \<notin> cellOf ` set (cur # rest)" for u
    using R3 that by blast
  have A6: "L < length p" if "w \<notin> V" "pathFromTo grid gridSize s w p" for w p
  proof -
    have "cur # rest \<noteq> []" by simp
    with R6 that have "length (qpath (hd (cur # rest))) < length p" by blast
    then show ?thesis unfolding L_def by (simp only: list.sel)
  qed
  have B2: "p = qpath e \<or> lexLt (rt e) (route p)"
    if "e \<in> set (cur # rest)" "pathFromTo grid gridSize s (cellOf e) p" "length p = len e" for e p
    using K2 that unfolding len_def rt_def by blast
  have B4: "lexLt (route (butlast (qpath e))) (rt cur)"
    if "e \<in> set rest" "len e = L + 1" for e
  proof -
    from that have "e \<in> set (cur # rest)"
      "length (qpath e) = length (qpath (hd (cur # rest))) + 1"
      by (simp_all add: len_def L_def)
    with K4 show ?thesis unfolding rt_def by (metis list.sel(1))
  qed
  have curFirst: "R cur e" if "e \<in> set rest" for e
    using K1 that by simp
  have curpath: "pathFromTo grid gridSize s (cellOf cur) (qpath cur)" using A1[of cur] by simp
  then have rp: "railPath grid gridSize (qpath cur)" and lastc: "last (qpath cur) = cellOf cur"
    by (simp_all add: pathFromTo_def)
  have ne: "qpath cur \<noteq> []" using rp by (rule railPath_nonempty)
  then have Lpos: "1 \<le> L" unfolding L_def by (cases "qpath cur") simp_all
  have restlo: "L \<le> len e" if "e \<in> set rest" for e
    using R4 that by (auto simp: L_def len_def)
  have resthi: "len e \<le> L + 1" if "e \<in> set rest" for e
    using R5 that by (simp add: len_def L_def)
  \<comment> \<open>the new entries\<close>
  have mk_len: "len (?mk d) = L + 1" for d by (simp add: len_def L_def)
  have mk_rt: "rt (?mk d) = rt cur @ [dirRank d]" for d
    using ne by (simp add: rt_def route_snoc lastc cellOf_def)
  have newlen: "len e = L + 1" if "e \<in> set news" for e
    using that mk_len by (auto simp: news)
  have newrt: "\<exists>r. rt e = rt cur @ [r]" if "e \<in> set news" for e
    using that mk_rt by (auto simp: news)
  have newbl: "butlast (qpath e) = qpath cur" if "e \<in> set news" for e
    using nw[OF that] by simp
  \<comment> \<open>the queue stays ordered\<close>
  have C1: "sorted_wrt R ?Q"
  proof -
    have "sorted_wrt R rest" using K1 by simp
    moreover have "sorted_wrt R news"
    proof -
      have "sorted_wrt (\<lambda>a b. R (?mk a) (?mk b)) ds'"
        using dsrt by (rule sorted_wrt_mono_rel[rotated]) (simp add: R_def mk_rt lexLt_snoc)
      then show ?thesis unfolding news by (simp only: sorted_wrt_map)
    qed
    moreover have "R e n" if e: "e \<in> set rest" and n: "n \<in> set news" for e n
      unfolding R_def
    proof
      assume "len e = len n"
      with newlen[OF n] have le: "len e = L + 1" by simp
      from newrt[OF n] obtain r where rn: "rt n = rt cur @ [r]" by blast
      have qne: "butlast (qpath e) \<noteq> []"
        using le Lpos by (cases "qpath e" rule: rev_cases) (auto simp: len_def)
      have qe: "qpath e = butlast (qpath e) @ [last (qpath e)]"
        using le by (cases "qpath e" rule: rev_cases) (auto simp: len_def)
      have "rt e = route (butlast (qpath e)) @
              [dirRank (fst (last (qpath e)) - fst (last (butlast (qpath e))),
                        snd (last (qpath e)) - snd (last (butlast (qpath e))))]"
        unfolding rt_def by (subst qe) (rule route_snoc[OF qne])
      with lexLt_append[OF B4[OF e le]] rn show "lexLt (rt e) (rt n)" by simp
    qed
    ultimately show ?thesis by (simp add: sorted_wrt_append)
  qed
  \<comment> \<open>every entry holds the least route of its length\<close>
  have C2: "p = qpath e \<or> lexLt (rt e) (route p)"
    if eq: "e \<in> set ?Q" and pf: "pathFromTo grid gridSize s (cellOf e) p" and pl: "length p = len e"
    for e p
  proof (cases "e \<in> set rest")
    case True
    then show ?thesis using B2[of e p] pf pl by simp
  next
    case False
    with eq have en: "e \<in> set news" by simp
    from nw[OF en] have adj: "adjacent (cellOf cur) (cellOf e)"
      and fresh: "cellOf e \<notin> V" and qp: "qpath e = qpath cur @ [cellOf e]" by simp_all
    define w where "w = cellOf e"
    from pf have rpp: "railPath grid gridSize p" and hdp: "hd p = s" and lastp: "last p = w"
      by (simp_all add: pathFromTo_def w_def)
    have plen: "length p = L + 1" using pl newlen[OF en] by simp
    define p' where "p' = butlast p"
    have pne: "p \<noteq> []" using rpp by (rule railPath_nonempty)
    then have psplit: "p = p' @ [w]"
      using lastp append_butlast_last_id[of p] unfolding p'_def by simp
    have p'len: "length p' = L" using plen by (simp add: p'_def)
    then have p'ne: "p' \<noteq> []" using Lpos by (cases p') simp_all
    from railPath_butlast[of grid gridSize p' w] rpp psplit p'ne
    have rp': "railPath grid gridSize p'" and adj': "adjacent (last p') w"
      and ros: "railOrStation grid gridSize w" by simp_all
    define u where "u = last p'"
    have hdp': "hd p' = s" using hdp psplit p'ne by (cases p') simp_all
    have pf': "pathFromTo grid gridSize s u p'"
      using rp' hdp' by (simp add: pathFromTo_def u_def)
    have uV: "u \<in> V"
    proof (rule ccontr)
      assume "u \<notin> V"
      from A6[OF this pf'] p'len show False by simp
    qed
    have rtp: "route p = route p' @ [dirRank (fst w - fst u, snd w - snd u)]"
      unfolding psplit u_def by (rule route_snoc[OF p'ne])
    have rte: "rt e = rt cur @ [dirRank (fst w - fst (cellOf cur), snd w - snd (cellOf cur))]"
      unfolding rt_def qp w_def using route_snoc[OF ne, of "cellOf e"] lastc by simp
    have before: "p' = qpath cur \<or> lexLt (rt cur) (route p')"
    proof (cases "u \<in> cellOf ` set (cur # rest)")
      case False
      from A3[OF uV False] adj' ros have "w \<in> V" unfolding u_def by blast
      with fresh show ?thesis by (simp add: w_def)
    next
      case True
      then consider "u = cellOf cur" | x where "x \<in> set rest" "u = cellOf x" by auto
      then show ?thesis
      proof cases
        case 1
        with B2[of cur p'] pf' p'len show ?thesis by (simp add: len_def L_def)
      next
        case 2
        from A1[of x] 2 pf' have "len x \<le> length p'" by simp
        with restlo[OF 2(1)] p'len have lx: "len x = L" by simp
        then have "len cur = len x" by (simp add: len_def L_def)
        with curFirst[OF 2(1)] have cx: "lexLt (rt cur) (rt x)" by (simp add: R_def)
        from B2[of x p'] 2 pf' p'len lx have "p' = qpath x \<or> lexLt (rt x) (route p')" by simp
        then show ?thesis using cx lexLt_trans unfolding rt_def by blast
      qed
    qed
    then show ?thesis
    proof
      assume same: "p' = qpath cur"
      then have "u = cellOf cur" using lastc by (simp add: u_def)
      then show ?thesis using psplit same qp by (simp add: w_def)
    next
      assume "lexLt (rt cur) (route p')"
      then have "lexLt (rt e) (route p)" unfolding rte rtp by (rule lexLt_append)
      then show ?thesis by simp
    qed
  qed
  \<comment> \<open>entries one step longer than the head hang below a route before the head's\<close>
  have C4: "lexLt (route (butlast (qpath e))) (rt (hd ?Q))"
    if eq: "e \<in> set ?Q" and el: "len e = len (hd ?Q) + 1" for e
  proof -
    have range: "L \<le> len x \<and> len x \<le> L + 1" if "x \<in> set ?Q" for x
      using that restlo resthi newlen by auto
    from eq have "?Q \<noteq> []" by auto
    then have hdin: "hd ?Q \<in> set ?Q" by (rule hd_in_set)
    from range[OF hdin] range[OF eq] el have hl: "len (hd ?Q) = L" and el': "len e = L + 1"
      by simp_all
    have hrest: "hd ?Q \<in> set rest"
    proof (rule ccontr)
      assume "hd ?Q \<notin> set rest"
      with hdin have "hd ?Q \<in> set news" by simp
      from newlen[OF this] hl show False by simp
    qed
    have "len cur = len (hd ?Q)" using hl by (simp add: len_def L_def)
    with curFirst[OF hrest] have ch: "lexLt (rt cur) (rt (hd ?Q))" by (simp add: R_def)
    show ?thesis
    proof (cases "e \<in> set rest")
      case True
      from lexLt_trans[OF B4[OF True el'] ch] show ?thesis .
    next
      case False
      with eq have "e \<in> set news" by simp
      from newbl[OF this] ch show ?thesis by (simp add: rt_def)
    qed
  qed
  show ?thesis
    unfolding vn fst_conv bfsOrd_def
    using C1 C2 C4 unfolding R_def len_def rt_def by blast
qed

lemma bfsLoop_least_route:
  "bfsInv grid gridSize s (endX, endY) Q V \<Longrightarrow> bfsOrd grid gridSize s Q \<Longrightarrow>
   (case bfsLoop grid gridSize endX endY Q V of
      None \<Rightarrow> True
    | Some p \<Rightarrow> (\<forall>q. pathFromTo grid gridSize s (endX, endY) q \<and> length q = length p \<longrightarrow>
                     q = p \<or> lexLt (route p) (route q)))"
proof (induction grid gridSize endX endY Q V rule: bfsLoop.induct)
  case (1 grid gridSize endX endY visited)
  show ?case by simp
next
  case (2 grid gridSize endX endY current queue visited)
  show ?case
  proof (cases "qx current = endX \<and> qy current = endY")
    case True
    then have c: "cellOf current = (endX, endY)" by (simp add: cellOf_def)
    from "2.prems"(2) have
      "\<forall>p. pathFromTo grid gridSize s (cellOf current) p \<and> length p = length (qpath current) \<longrightarrow>
           p = qpath current \<or> lexLt (route (qpath current)) (route p)"
      unfolding bfsOrd_def by simp
    then show ?thesis using True by (simp add: c)
  next
    case False
    then have nt: "cellOf current \<noteq> (endX, endY)" by (auto simp: cellOf_def)
    have inv': "bfsInv grid gridSize s (endX, endY)
            (fst (visitNeighbors grid gridSize current (queue, visited)))
            (snd (visitNeighbors grid gridSize current (queue, visited)))"
      using bfsInv_step[OF "2.prems"(1) nt] .
    have ord': "bfsOrd grid gridSize s (fst (visitNeighbors grid gridSize current (queue, visited)))"
      using bfsOrd_step[OF "2.prems"] .
    have unfold: "bfsLoop grid gridSize endX endY (current # queue) visited =
                    bfsLoop grid gridSize endX endY
                      (fst (visitNeighbors grid gridSize current (queue, visited)))
                      (snd (visitNeighbors grid gridSize current (queue, visited)))"
      using False by auto
    from "2.IH"[OF False inv' ord'] show ?thesis unfolding unfold .
  qed
qed

lemma ring_result:
  "findPathOnRails ringGrid 3 0 0 2 2 = Some [(0, 0), (1, 0), (2, 0), (2, 1), (2, 2)]"
  by code_simp

lemma ring_other:
  "pathFromTo ringGrid 3 (0, 0) (2, 2) [(0, 0), (0, 1), (0, 2), (1, 2), (2, 2)]"
  by code_simp

text \<open>
  C2.  On a square grid of the given size, for every start and end (in particular in-bounds
  ones), \<open>findPathOnRails\<close> returns \<^verbatim>\<open>null\<close> only if no sequence of orthogonally adjacent
  cells leads from start to end through rail-or-station cells; otherwise it returns such a
  sequence, from the start cell to the end cell, and no such sequence is shorter.  The
  neighbours are explored in the order north \<open>x-1\<close>, east \<open>y-1\<close>, south \<open>x+1\<close>, west \<open>y+1\<close>:
  every other shortest sequence differs from the returned one first at a step whose
  direction comes later in this order, so the result is the one shortest path that this
  order prefers.  On every grid whose rail-or-station cells are exactly the line from
  \<open>(0,0)\<close> to \<open>(0,4)\<close> the path returned from \<open>(0,0)\<close> to \<open>(0,4)\<close> is that line in order.
\<close>

theorem findPathOnRails_shortest:
  assumes "wf_grid grid gridSize"
  shows "(case findPathOnRails grid gridSize startX startY endX endY of
            None \<Rightarrow> (\<forall>p. \<not> pathFromTo grid gridSize (startX, startY) (endX, endY) p)
          | Some p \<Rightarrow> pathFromTo grid gridSize (startX, startY) (endX, endY) p \<and>
                     (\<forall>q. pathFromTo grid gridSize (startX, startY) (endX, endY) q \<longrightarrow>
                          length p \<le> length q) \<and>
                     (\<forall>q. pathFromTo grid gridSize (startX, startY) (endX, endY) q \<and>
                          length q = length p \<longrightarrow> q = p \<or> lexLt (route p) (route q))) \<and>
         directions = [(-1, 0), (0, -1), (1, 0), (0, 1)] \<and>
         ((\<forall>x y. railOrStation grid gridSize (x, y) = (x = 0 \<and> 0 \<le> y \<and> y \<le> 4)) \<longrightarrow>
            findPathOnRails grid gridSize 0 0 0 4 = Some [(0, 0), (0, 1), (0, 2), (0, 3), (0, 4)])"
proof (intro conjI impI)
  let ?start = "[\<lparr>qx = startX, qy = startY, qpath = [(startX, startY)]\<rparr>]"
  have a: "case bfsLoop grid gridSize endX endY ?start {(startX, startY)} of
            None \<Rightarrow> (\<forall>p. \<not> pathFromTo grid gridSize (startX, startY) (endX, endY) p)
          | Some p \<Rightarrow> pathFromTo grid gridSize (startX, startY) (endX, endY) p \<and>
                     (\<forall>q. pathFromTo grid gridSize (startX, startY) (endX, endY) q \<longrightarrow>
                          length p \<le> length q)"
    by (rule bfsLoop_correct[OF bfsInv_initial])
  have b: "case bfsLoop grid gridSize endX endY ?start {(startX, startY)} of
            None \<Rightarrow> True
          | Some p \<Rightarrow> (\<forall>q. pathFromTo grid gridSize (startX, startY) (endX, endY) q \<and>
                          length q = length p \<longrightarrow> q = p \<or> lexLt (route p) (route q))"
    by (rule bfsLoop_least_route[OF bfsInv_initial bfsOrd_initial])
  show "case findPathOnRails grid gridSize startX startY endX endY of
            None \<Rightarrow> (\<forall>p. \<not> pathFromTo grid gridSize (startX, startY) (endX, endY) p)
          | Some p \<Rightarrow> pathFromTo grid gridSize (startX, startY) (endX, endY) p \<and>
                     (\<forall>q. pathFromTo grid gridSize (startX, startY) (endX, endY) q \<longrightarrow>
                          length p \<le> length q) \<and>
                     (\<forall>q. pathFromTo grid gridSize (startX, startY) (endX, endY) q \<and>
                          length q = length p \<longrightarrow> q = p \<or> lexLt (route p) (route q))"
    unfolding findPathOnRails_def
    using a b by (cases "bfsLoop grid gridSize endX endY ?start {(startX, startY)}") simp_all
  show "directions = [(-1, 0), (0, -1), (1, 0), (0, 1)]" by (rule directions_def)
next
  assume "\<forall>x y. railOrStation grid gridSize (x, y) = (x = 0 \<and> 0 \<le> y \<and> y \<le> 4)"
  then have "\<And>x y. railOrStation grid gridSize (x, y) = (x = 0 \<and> 0 \<le> y \<and> y \<le> 4)" by blast
  then show "findPathOnRails grid gridSize 0 0 0 4 = Some [(0, 0), (0, 1), (0, 2), (0, 3), (0, 4)]"
    by (rule findPathOnRails_line)
qed

theorem findPathOnRails_shortest_witness:
  "wf_grid lineGrid 5 \<and>
   (\<forall>x y. railOrStation lineGrid 5 (x, y) = (x = 0 \<and> 0 \<le> y \<and> y \<le> 4)) \<and>
   findPathOnRails lineGrid 5 0 0 0 4 = Some [(0, 0), (0, 1), (0, 2), (0, 3), (0, 4)] \<and>
   pathFromTo lineGrid 5 (0, 0) (0, 4) [(0, 0), (0, 1), (0, 2), (0, 3), (0, 4)] \<and>
   (\<forall>q. \<not> (pathFromTo lineGrid 5 (0, 0) (0, 4) q \<and> length q < 5)) \<and>
   findPathOnRails lineGrid 5 0 0 4 0 = None \<and>
   (\<forall>p. \<not> pathFromTo lineGrid 5 (0, 0) (4, 0) p) \<and>
   wf_grid ringGrid 3 \<and>
   findPathOnRails ringGrid 3 0 0 2 2 = Some [(0, 0), (1, 0), (2, 0), (2, 1), (2, 2)] \<and>
   pathFromTo ringGrid 3 (0, 0) (2, 2) [(0, 0), (0, 1), (0, 2), (1, 2), (2, 2)] \<and>
   lexLt (route [(0, 0), (1, 0), (2, 0), (2, 1), (2, 2)])
         (route [(0, 0), (0, 1), (0, 2), (1, 2), (2, 2)])"
proof -
  have line: "\<forall>x y. railOrStation lineGrid 5 (x, y) = (x = 0 \<and> 0 \<le> y \<and> y \<le> 4)"
    by (simp add: railOrStation_lineGrid)
  have none: "findPathOnRails lineGrid 5 0 0 4 0 = None"
    unfolding findPathOnRails_def
    by (simp add: visitNeighbors_def directions_def visitNeighbor_step railOrStation_lineGrid)
  from findPathOnRails_shortest[OF wf_lineGrid, of 0 0 0 4] line
  have some: "findPathOnRails lineGrid 5 0 0 0 4 = Some [(0, 0), (0, 1), (0, 2), (0, 3), (0, 4)]"
    and props: "case findPathOnRails lineGrid 5 0 0 0 4 of
            None \<Rightarrow> (\<forall>p. \<not> pathFromTo lineGrid 5 (0, 0) (0, 4) p)
          | Some p \<Rightarrow> pathFromTo lineGrid 5 (0, 0) (0, 4) p \<and>
                     (\<forall>q. pathFromTo lineGrid 5 (0, 0) (0, 4) q \<longrightarrow> length p \<le> length q) \<and>
                     (\<forall>q. pathFromTo lineGrid 5 (0, 0) (0, 4) q \<and> length q = length p \<longrightarrow>
                          q = p \<or> lexLt (route p) (route q))"
    by blast+
  from props have good: "pathFromTo lineGrid 5 (0, 0) (0, 4) [(0, 0), (0, 1), (0, 2), (0, 3), (0, 4)]"
    and short: "\<forall>q. pathFromTo lineGrid 5 (0, 0) (0, 4) q \<longrightarrow> 5 \<le> length q"
    unfolding some by (simp_all add: eval_nat_numeral)
  from short have short': "\<forall>q. \<not> (pathFromTo lineGrid 5 (0, 0) (0, 4) q \<and> length q < 5)"
    by (meson not_less)
  from findPathOnRails_shortest[OF wf_lineGrid, of 0 0 4 0]
  have unreachable: "\<forall>p. \<not> pathFromTo lineGrid 5 (0, 0) (4, 0) p"
    unfolding none by simp
  have wr: "wf_grid ringGrid 3" by (simp add: wf_grid_def ringGrid_def)
  note ring = ring_result and other = ring_other
  from findPathOnRails_shortest[OF wr, of 0 0 2 2]
  have least_all: "\<forall>q. pathFromTo ringGrid 3 (0, 0) (2, 2) q \<and>
            length q = length [(0, 0), (1, 0), (2, 0), (2, 1), (2, 2) :: int \<times> int] \<longrightarrow>
            q = [(0, 0), (1, 0), (2, 0), (2, 1), (2, 2)] \<or>
            lexLt (route [(0, 0), (1, 0), (2, 0), (2, 1), (2, 2)]) (route q)"
    unfolding ring by simp
  have same_length: "length [(0, 0), (0, 1), (0, 2), (1, 2), (2, 2) :: int \<times> int] =
                     length [(0, 0), (1, 0), (2, 0), (2, 1), (2, 2) :: int \<times> int]"
    by simp
  have differ: "[(0, 0), (0, 1), (0, 2), (1, 2), (2, 2)] \<noteq> [(0, 0), (1, 0), (2, 0), (2, 1), (2, 2 :: int)]"
    by simp
  from least_all other same_length differ
  have least: "lexLt (route [(0, 0), (1, 0), (2, 0), (2, 1), (2, 2)])
                     (route [(0, 0), (0, 1), (0, 2), (1, 2), (2, 2)])"
    by blast
  show ?thesis
    by (intro conjI) (fact wf_lineGrid line some good short' none unreachable wr ring other least)+
qed

end
